theory Spec2Isabelle
  imports Complex_Main "HOL-Library.AList"
begin

section \<open>Strings\<close>

text \<open>
  Selectors, test ids and error messages are JavaScript strings. They are modelled as
  \<^typ>\<open>string\<close> (lists of 8-bit characters): the model covers ASCII text, where one
  character is one UTF-16 code unit and \<open>length\<close> is the JavaScript \<open>.length\<close>.
  Confidence values are JavaScript numbers; they are modelled as \<^typ>\<open>real\<close>, so the
  rounding of IEEE doubles is not part of the model.
\<close>

definition upper_chars :: string where
  "upper_chars = ''ABCDEFGHIJKLMNOPQRSTUVWXYZ''"

definition lower_chars :: string where
  "lower_chars = ''abcdefghijklmnopqrstuvwxyz''"

definition digit_chars :: string where
  "digit_chars = ''0123456789''"

text \<open>\<open>String.prototype.toLowerCase\<close> on ASCII.\<close>

definition lower_char :: "char \<Rightarrow> char" where
  "lower_char c = (case map_of (zip upper_chars lower_chars) c of Some d \<Rightarrow> d | None \<Rightarrow> c)"

definition toLowerCase :: "string \<Rightarrow> string" where
  "toLowerCase s = map lower_char s"

text \<open>The ASCII members of the regular-expression class \<open>\s\<close>, which are also what \<open>trim\<close> strips.\<close>

definition is_space :: "char \<Rightarrow> bool" where
  "is_space c = (c \<in> set [CHR 0x20, CHR 0x09, CHR 0x0A, CHR 0x0B, CHR 0x0C, CHR 0x0D])"

definition trim :: "string \<Rightarrow> string" where
  "trim s = rev (dropWhile is_space (rev (dropWhile is_space s)))"

text \<open>\<open>hay.startsWith(needle)\<close>, \<open>hay.includes(needle)\<close> and \<open>hay.endsWith(needle)\<close>.\<close>

fun startsWith :: "string \<Rightarrow> string \<Rightarrow> bool" where
  "startsWith hay [] = True"
| "startsWith [] (n # ns) = False"
| "startsWith (h # hs) (n # ns) = (h = n \<and> startsWith hs ns)"

fun str_includes :: "string \<Rightarrow> string \<Rightarrow> bool" where
  "str_includes [] needle = (needle = [])"
| "str_includes (h # hs) needle = (startsWith (h # hs) needle \<or> str_includes hs needle)"

definition endsWith :: "string \<Rightarrow> string \<Rightarrow> bool" where
  "endsWith hay needle = startsWith (rev hay) (rev needle)"

text \<open>\<open>parts.join(sep)\<close>.\<close>

fun join :: "string \<Rightarrow> string list \<Rightarrow> string" where
  "join sep [] = []"
| "join sep [x] = x"
| "join sep (x # y # ys) = x @ sep @ join sep (y # ys)"

text \<open>
  \<open>s.split(/\s+/)\<close>: the pieces between maximal runs of white space; a run at the start
  or at the end leaves an empty first or last piece, and the empty string gives one empty piece.
  The first argument is the piece read so far, the second says whether the previous
  character was white space.
\<close>

fun split_ws_from :: "string \<Rightarrow> bool \<Rightarrow> string \<Rightarrow> string list" where
  "split_ws_from cur in_gap [] = [cur]"
| "split_ws_from cur in_gap (c # cs) =
     (if is_space c then (if in_gap then split_ws_from cur True cs
                          else cur # split_ws_from [] True cs)
      else split_ws_from (cur @ [c]) False cs)"

definition split_ws :: "string \<Rightarrow> string list" where
  "split_ws s = split_ws_from [] False s"

section \<open>The regular expressions of the strategies\<close>

text \<open>
  Every regular expression the modelled code uses is a sequence of single-character
  classes, some of them under a greedy \<open>*\<close> or \<open>+\<close>, with at most one capture group.
  \<open>One cap p\<close> matches one character of class \<open>p\<close>, \<open>Star cap p\<close> is the greedy \<open>p*\<close>;
  \<open>cap\<close> says that the item lies inside the capture group. \<open>p+\<close> is \<open>One\<close> followed by \<open>Star\<close>.
  \<open>rx_match\<close> matches at the start of the text with the backtracking order of the
  JavaScript engine (a star first tries to take one more character) and returns the captured
  text and the unread rest.
\<close>

datatype rx = One bool "char \<Rightarrow> bool" | Star bool "char \<Rightarrow> bool"

fun rx_match :: "rx list \<Rightarrow> string \<Rightarrow> (string \<times> string) option" where
  "rx_match [] s = Some ([], s)"
| "rx_match (One cap p # rs) [] = None"
| "rx_match (One cap p # rs) (c # cs) =
     (if p c then (case rx_match rs cs of
                     None \<Rightarrow> None
                   | Some (g, rest) \<Rightarrow> Some (if cap then c # g else g, rest))
      else None)"
| "rx_match (Star cap p # rs) [] = rx_match rs []"
| "rx_match (Star cap p # rs) (c # cs) =
     (if p c then (case rx_match (Star cap p # rs) cs of
                     Some (g, rest) \<Rightarrow> Some (if cap then c # g else g, rest)
                   | None \<Rightarrow> rx_match rs (c # cs))
      else rx_match rs (c # cs))"

text \<open>
  \<open>s.match(re)\<close> without the \<open>g\<close> flag, for a regular expression that is an alternation
  \<open>a|b|...\<close> of such sequences: the leftmost match, the alternatives tried in order at each
  position. The result is (matched text, capture group).
\<close>

fun rx_match_alts :: "rx list list \<Rightarrow> string \<Rightarrow> (string \<times> string) option" where
  "rx_match_alts [] s = None"
| "rx_match_alts (rs # alts) s =
     (case rx_match rs s of
        Some (g, rest) \<Rightarrow> Some (take (length s - length rest) s, g)
      | None \<Rightarrow> rx_match_alts alts s)"

fun rx_search :: "rx list list \<Rightarrow> string \<Rightarrow> (string \<times> string) option" where
  "rx_search alts [] = rx_match_alts alts []"
| "rx_search alts (c # cs) =
     (case rx_match_alts alts (c # cs) of Some m \<Rightarrow> Some m | None \<Rightarrow> rx_search alts cs)"

text \<open>
  \<open>s.match(re)\<close> with the \<open>g\<close> flag, \<open>s.matchAll(re)\<close> and repeated \<open>re.exec(s)\<close>: all matches
  from left to right, each search starting where the previous match ended. The number
  argument counts the characters of the last match still to be skipped. Each match is
  given as (matched text, capture group).
\<close>

fun rx_scan :: "rx list \<Rightarrow> nat \<Rightarrow> string \<Rightarrow> (string \<times> string) list" where
  "rx_scan rs k [] = []"
| "rx_scan rs (Suc k) (c # cs) = rx_scan rs k cs"
| "rx_scan rs 0 (c # cs) =
     (case rx_match rs (c # cs) of
        None \<Rightarrow> rx_scan rs 0 cs
      | Some (g, rest) \<Rightarrow>
          (let n = length (c # cs) - length rest
           in (take n (c # cs), g) # rx_scan rs (n - 1) cs))"

text \<open>\<open>s.replace(re, '')\<close> with the \<open>g\<close> flag: every match is removed.\<close>

fun rx_remove :: "rx list \<Rightarrow> nat \<Rightarrow> string \<Rightarrow> string" where
  "rx_remove rs k [] = []"
| "rx_remove rs (Suc k) (c # cs) = rx_remove rs k cs"
| "rx_remove rs 0 (c # cs) =
     (case rx_match rs (c # cs) of
        None \<Rightarrow> c # rx_remove rs 0 cs
      | Some (g, rest) \<Rightarrow>
          (let n = length (c # cs) - length rest
           in if n = 0 then c # rx_remove rs 0 cs else rx_remove rs (n - 1) cs))"

text \<open>A literal, and a literal under the \<open>i\<close> flag.\<close>

definition lit :: "string \<Rightarrow> rx list" where
  "lit s = map (\<lambda>c. One False (\<lambda>d. d = c)) s"

definition lit_i :: "string \<Rightarrow> rx list" where
  "lit_i s = map (\<lambda>c. One False (\<lambda>d. lower_char d = lower_char c)) s"

definition is_letter :: "char \<Rightarrow> bool" where
  "is_letter c = (c \<in> set lower_chars \<or> c \<in> set upper_chars)"

definition is_digit :: "char \<Rightarrow> bool" where
  "is_digit c = (c \<in> set digit_chars)"

text \<open>The class \<open>[a-zA-Z0-9_-]\<close>.\<close>

definition is_name_char :: "char \<Rightarrow> bool" where
  "is_name_char c = (is_letter c \<or> is_digit c \<or> c = CHR ''_'' \<or> c = CHR ''-'')"

text \<open>The classes \<open>["']\<close> and \<open>[^"']\<close>.\<close>

definition is_quote :: "char \<Rightarrow> bool" where
  "is_quote c = (c = CHR 0x22 \<or> c = CHR 0x27)"

definition not_quote :: "char \<Rightarrow> bool" where
  "not_quote c = (\<not> is_quote c)"


section \<open>Data model (\<open>types.ts\<close>)\<close>

datatype HealingStrategy =
  DataTestidRecovery | TextContentMatching | CssHierarchyAnalysis | AiPoweredAnalysis

text \<open>
  \<open>metadata\<close> is an untyped dictionary in the source; each constructor is one of the
  shapes the code builds.
\<close>

datatype metadata =
    Cached nat
  | NoHealingNeeded
  | TestIdMatch string string string
  | TextMatch string string real
  | CssTransform string string
  | AiReasoning "string option" nat
  | AiResponse string "nat option"

record HealingResult =
  success :: bool
  selector :: string
  confidence :: real
  strategy :: HealingStrategy
  alternatives :: "string list"
  error :: "string option"
  metadata :: "metadata option"

record ElementInfo =
  el_tag :: string
  el_id :: "string option"
  el_classes :: "string list"
  el_text :: "string option"
  el_testId :: "string option"
  el_role :: "string option"
  el_ariaLabel :: "string option"
  el_type :: "string option"
  el_name :: "string option"

record HealingStrategyOptions =
  expectedType :: "string option"
  maxElements :: "nat option"

record HealingCacheEntry =
  original :: string
  healed :: string
  entry_confidence :: real
  entry_strategy :: HealingStrategy
  timestamp :: nat
  useCount :: nat

section \<open>The browser and the LLM backend\<close>

text \<open>
  One item of the \<open>suggestions\<close> array of an LLM reply, read through the shape the code
  expects: a field is \<open>None\<close> when it is absent or \<open>null\<close>; a \<open>selector\<close> that is not a
  string is \<open>None\<close> as well. A \<open>confidence\<close> that is neither a number nor absent is outside
  the model.
\<close>

record llm_item =
  item_selector :: "string option"
  item_confidence :: "real option"
  item_reasoning :: "string option"

text \<open>
  What one \<open>heal\<close> call observes of its collaborators. The page does not change during a call.
  \<^item> \<open>locator_count sel\<close> is \<open>page.locator(sel).count()\<close>, \<open>None\<close> when the driver throws;
  \<^item> \<open>evaluate_testid\<close> and \<open>evaluate_text max\<close> are the results of the in-page
    extractions \<open>getAllTestIdElements\<close> and \<open>getAllTextElements\<close>, \<open>Inl msg\<close> when
    \<open>page.evaluate\<close> throws;
  \<^item> \<open>page_context\<close> is \<open>Some msg\<close> when \<open>extractPageContext\<close> throws;
  \<^item> \<open>ollama_tags\<close> is the availability request \<open>GET /api/tags\<close>: \<open>Some response.ok\<close>,
    or \<open>None\<close> when \<open>fetch\<close> throws or is aborted;
  \<^item> \<open>ollama_generate\<close> is the result of \<open>callOllama\<close>: the reply text, or \<open>Inl msg\<close> when
    it throws. The prompt is not modelled: the reply is arbitrary text whatever the prompt;
  \<^item> \<open>json_parse s\<close> is \<open>JSON.parse(s)\<close> followed by the read of \<open>.suggestions\<close>: \<open>None\<close>
    when it throws, \<open>Some None\<close> when the value has no array \<open>suggestions\<close>.
\<close>

record world =
  locator_count :: "string \<Rightarrow> nat option"
  evaluate_testid :: "string + ElementInfo list"
  evaluate_text :: "nat \<Rightarrow> string + ElementInfo list"
  page_context :: "string option"
  ollama_tags :: "bool option"
  ollama_generate :: "string + string"
  json_parse :: "string \<Rightarrow> llm_item list option option"

text \<open>
  What a call does that can be seen from outside: driver probes with their verdicts,
  strategy invocations and sleeps (in milliseconds), in order.
\<close>

datatype event = Probe string bool | Invoke HealingStrategy | Sleep nat

text \<open>\<open>checkSelectorExists\<close> (\<open>utils.ts\<close>, and the private copy in \<open>healer.ts\<close>).\<close>

definition checkSelectorExists :: "world \<Rightarrow> string \<Rightarrow> bool" where
  "checkSelectorExists w sel = (case locator_count w sel of Some n \<Rightarrow> n > 0 | None \<Rightarrow> False)"

definition with_event :: "event \<Rightarrow> 'a \<times> event list \<Rightarrow> 'a \<times> event list" where
  "with_event ev r = (fst r, ev # snd r)"

text \<open>\<open>xs.sort((a, b) => key(b) - key(a))\<close>: a stable sort, greatest key first.\<close>

definition sort_desc :: "('a \<Rightarrow> real) \<Rightarrow> 'a list \<Rightarrow> 'a list" where
  "sort_desc key xs = sort_key (\<lambda>x. - key x) xs"

text \<open>The \<open>seen\<close>-set filter: the first element of each key is kept.\<close>

fun dedupe_from :: "('a \<Rightarrow> string) \<Rightarrow> string list \<Rightarrow> 'a list \<Rightarrow> 'a list" where
  "dedupe_from key seen [] = []"
| "dedupe_from key seen (x # xs) =
     (if key x \<in> set seen then dedupe_from key seen xs
      else x # dedupe_from key (key x # seen) xs)"

text \<open>The failure result every strategy builds.\<close>

definition failure :: "HealingStrategy \<Rightarrow> string \<Rightarrow> string list \<Rightarrow> string \<Rightarrow> metadata option \<Rightarrow> HealingResult" where
  "failure name brokenSelector alts msg md =
     \<lparr>success = False, selector = brokenSelector, confidence = 0, strategy = name,
      alternatives = alts, error = Some msg, metadata = md\<rparr>"

section \<open>Strategy: TestID recovery (\<open>data-testid-recovery.ts\<close>)\<close>

definition TEST_ID_ATTRIBUTES :: "string list" where
  "TEST_ID_ATTRIBUTES = [''data-testid'', ''data-test-id'', ''data-cy'', ''data-test'', ''testid'']"

text \<open>
  The two patterns \<open>extractTestId\<close> builds for one attribute, both with the \<open>i\<close> flag:
  \<open>\[attr[=~]["']([^"']+)["']\]\<close> and \<open>attr[=~]["']([^"']+)["']\<close>.
\<close>

definition quoted_value :: "rx list" where
  "quoted_value = [One False is_quote, One True not_quote, Star True not_quote, One False is_quote]"

definition testid_patterns :: "string \<Rightarrow> rx list list" where
  "testid_patterns attr =
     [lit_i ''['' @ lit_i attr @ [One False (\<lambda>c. c = CHR ''='' \<or> c = CHR ''~'')] @ quoted_value @ lit_i '']'',
      lit_i attr @ [One False (\<lambda>c. c = CHR ''='' \<or> c = CHR ''~'')] @ quoted_value]"

text \<open>
  The first pattern of the list that matches somewhere gives its capture group; each
  pattern is given as the list of its alternatives.
\<close>

fun first_capture :: "rx list list list \<Rightarrow> string \<Rightarrow> string option" where
  "first_capture [] s = None"
| "first_capture (p # ps) s =
     (case rx_search p s of Some (m, g) \<Rightarrow> Some g | None \<Rightarrow> first_capture ps s)"

definition extractTestId :: "string \<Rightarrow> string option" where
  "extractTestId sel =
     first_capture (map (\<lambda>p. [p]) (concat (map testid_patterns TEST_ID_ATTRIBUTES))) sel"

text \<open>
  The Levenshtein matrix of \<open>calculateSimilarity\<close>, row by row. \<open>lev_cells c s1 prev left\<close>
  fills the cells of the row of character \<open>c\<close> of the second string from the row \<open>prev\<close> above it
  and the cell to the \<open>left\<close>: the diagonal cell when the characters agree, otherwise one
  more than the least of the diagonal, left and upper cells.
\<close>

fun lev_cells :: "char \<Rightarrow> string \<Rightarrow> nat list \<Rightarrow> nat \<Rightarrow> nat list" where
  "lev_cells c [] prev left = []"
| "lev_cells c (x # xs) (diag # up # prev) left =
     (let v = (if c = x then diag else min (diag + 1) (min (left + 1) (up + 1)))
      in v # lev_cells c xs (up # prev) v)"
| "lev_cells c (x # xs) prev left = []"

fun lev_rows :: "string \<Rightarrow> string \<Rightarrow> nat list \<Rightarrow> nat \<Rightarrow> nat list" where
  "lev_rows [] s1 row i = row"
| "lev_rows (c # cs) s1 row i = lev_rows cs s1 (i # lev_cells c s1 row i) (Suc i)"

definition lev_distance :: "string \<Rightarrow> string \<Rightarrow> nat" where
  "lev_distance s1 s2 = last (lev_rows s2 s1 [0 ..< Suc (length s1)] 1)"

definition calculateSimilarity :: "string \<Rightarrow> string \<Rightarrow> real" where
  "calculateSimilarity str1 str2 =
     (let s1 = toLowerCase str1; s2 = toLowerCase str2
      in if s1 = s2 then 1
         else if length s1 = 0 then 0
         else if length s2 = 0 then 0
         else 1 - real (lev_distance s1 s2) / real (max (length s1) (length s2)))"

text \<open>
  \<open>normalizeName\<close>: lower case, then \<open>-\<close>, \<open>_\<close> and white space removed. The replacement
  \<open>/([a-z])([A-Z])/g \<rightarrow> '$1$2'\<close> and the second \<open>toLowerCase\<close> of the source change nothing.
\<close>

definition normalizeName :: "string \<Rightarrow> string" where
  "normalizeName name =
     toLowerCase (filter (\<lambda>c. \<not> (c = CHR ''-'' \<or> c = CHR ''_'' \<or> is_space c)) (toLowerCase name))"

record testid_candidate =
  tc_selector :: string
  tc_testId :: string
  tc_confidence :: real
  tc_matchType :: string

text \<open>The truth value of an optional string: absent and empty are both false.\<close>

definition truthy :: "string option \<Rightarrow> bool" where
  "truthy s = (case s of None \<Rightarrow> False | Some t \<Rightarrow> t \<noteq> [])"

text \<open>The body of the loop of \<open>findCandidates\<close>: the candidates one page element contributes.\<close>

definition testid_score :: "string \<Rightarrow> string \<Rightarrow> real \<times> string" where
  "testid_score originalTestId testId =
     (if toLowerCase originalTestId = toLowerCase testId then (0.95, ''exact'')
      else if normalizeName originalTestId = normalizeName testId then (0.9, ''normalized'')
      else if str_includes (toLowerCase testId) (toLowerCase originalTestId) then (0.8, ''contains'')
      else if str_includes (toLowerCase originalTestId) (toLowerCase testId) then (0.75, ''contained-by'')
      else (calculateSimilarity originalTestId testId, ''partial''))"

definition testid_element_candidates ::
  "string \<Rightarrow> string option \<Rightarrow> ElementInfo \<Rightarrow> testid_candidate list" where
  \<open>testid_element_candidates originalTestId expType element =
     (if \<not> truthy (el_testId element) then []
      else let testId = the (el_testId element);
               similarity = calculateSimilarity originalTestId testId
           in if similarity > 0.5 then
                (let (conf, matchType) = testid_score originalTestId testId;
                     conf' = (if truthy expType \<and> el_tag element = toLowerCase (the expType)
                              then min (conf + 0.1) 1.0 else conf)
                 in map (\<lambda>attr. \<lparr>tc_selector = ''['' @ attr @ ''="'' @ testId @ ''"]'',
                                  tc_testId = testId, tc_confidence = conf',
                                  tc_matchType = matchType\<rparr>) TEST_ID_ATTRIBUTES)
              else [])\<close>

definition testid_findCandidates ::
  "string \<Rightarrow> ElementInfo list \<Rightarrow> string option \<Rightarrow> testid_candidate list" where
  "testid_findCandidates originalTestId elements expType =
     sort_desc tc_confidence (concat (map (testid_element_candidates originalTestId expType) elements))"

text \<open>The validation loop of \<open>heal\<close>: candidates are probed in order, the first present one wins.\<close>

fun testid_validate ::
  "world \<Rightarrow> string \<Rightarrow> string \<Rightarrow> testid_candidate list \<Rightarrow> testid_candidate list
     \<Rightarrow> HealingResult \<times> event list" where
  "testid_validate w brokenSelector extracted candidates [] =
     (failure DataTestidRecovery brokenSelector (map tc_selector candidates)
        ''No matching test ID elements found on page'' None, [])"
| "testid_validate w brokenSelector extracted candidates (c # cs) =
     (let exists = checkSelectorExists w (tc_selector c)
      in with_event (Probe (tc_selector c) exists)
           (if exists then
              (\<lparr>success = True, selector = tc_selector c, confidence = tc_confidence c,
                strategy = DataTestidRecovery,
                alternatives = map tc_selector (filter (\<lambda>d. tc_selector d \<noteq> tc_selector c) candidates),
                error = None,
                metadata = Some (TestIdMatch extracted (tc_testId c) (tc_matchType c))\<rparr>, [])
            else testid_validate w brokenSelector extracted candidates cs))"

definition testid_heal :: "world \<Rightarrow> string \<Rightarrow> HealingStrategyOptions \<Rightarrow> HealingResult \<times> event list" where
  "testid_heal w brokenSelector options =
     (if \<not> truthy (extractTestId brokenSelector) then
        (failure DataTestidRecovery brokenSelector [] ''No test ID pattern found in selector'' None, [])
      else case evaluate_testid w of
             Inl msg \<Rightarrow> (failure DataTestidRecovery brokenSelector [] msg None, [])
           | Inr elements \<Rightarrow>
               (let extracted = the (extractTestId brokenSelector);
                    candidates = testid_findCandidates extracted elements (expectedType options)
                in testid_validate w brokenSelector extracted candidates candidates))"

section \<open>Strategy: CSS hierarchy (\<open>css-hierarchy-analysis.ts\<close>)\<close>

record analysis =
  hasId :: bool
  ids :: "string list"
  hasClass :: bool
  classes :: "string list"
  hasElement :: bool
  elements :: "string list"
  hasAttribute :: bool
  attributes :: "string list"
  hasNthChild :: bool
  nthChildren :: "string list"
  parts :: "string list"
  depth :: nat

text \<open>
  The regular expressions of \<open>analyzeSelector\<close>: \<open>#([a-zA-Z0-9_-]+)\<close>,
  \<open>\.([a-zA-Z0-9_-]+)\<close>, \<open>\[([^\]]+)\]\<close> and \<open>:nth-child\(\d+\)\<close>.
\<close>

definition id_rx :: "rx list" where
  "id_rx = [One False (\<lambda>c. c = CHR ''#''), One True is_name_char, Star True is_name_char]"

definition class_rx :: "rx list" where
  "class_rx = [One False (\<lambda>c. c = CHR ''.''), One True is_name_char, Star True is_name_char]"

definition attr_rx :: "rx list" where
  "attr_rx = [One False (\<lambda>c. c = CHR ''[''), One True (\<lambda>c. c \<noteq> CHR '']''),
              Star True (\<lambda>c. c \<noteq> CHR '']''), One False (\<lambda>c. c = CHR '']'')]"

definition nth_rx :: "rx list" where
  "nth_rx = lit '':nth-child('' @ [One False is_digit, Star False is_digit] @ lit '')''"

text \<open>
  \<open>selector.match(/^([a-z]+)|(?:\s)([a-z]+)/gi)\<close>: the first alternative can match at the
  start of the selector only, where it is tried first; everywhere (the start included, when
  the first alternative fails there) the second one matches a white-space character and
  the letters after it.
\<close>

definition element_matches :: "string \<Rightarrow> string list" where
  "element_matches sel =
     (let spaced = [One False is_space, One True is_letter, Star True is_letter]
      in case rx_match [One True is_letter, Star True is_letter] sel of
           Some (g, rest) \<Rightarrow> take (length sel - length rest) sel # map fst (rx_scan spaced 0 rest)
         | None \<Rightarrow> map fst (rx_scan spaced 0 sel))"

definition analyzeSelector :: "string \<Rightarrow> analysis" where
  "analyzeSelector sel =
     \<lparr>hasId = CHR ''#'' \<in> set sel,
      ids = map (\<lambda>m. drop 1 (fst m)) (rx_scan id_rx 0 sel),
      hasClass = CHR ''.'' \<in> set sel,
      classes = map (\<lambda>m. drop 1 (fst m)) (rx_scan class_rx 0 sel),
      hasElement = (case sel of [] \<Rightarrow> False | c # cs \<Rightarrow> is_letter c),
      elements = map (\<lambda>el. toLowerCase (trim el)) (element_matches sel),
      hasAttribute = CHR ''['' \<in> set sel,
      attributes = map fst (rx_scan attr_rx 0 sel),
      hasNthChild = str_includes sel '':nth-child'',
      nthChildren = map fst (rx_scan nth_rx 0 sel),
      parts = split_ws sel,
      depth = length (split_ws sel)\<rparr>"

record css_candidate =
  cc_selector :: string
  cc_confidence :: real
  cc_reason :: string

definition alt :: "string \<Rightarrow> real \<Rightarrow> string \<Rightarrow> css_candidate" where
  "alt sel conf reason = \<lparr>cc_selector = sel, cc_confidence = conf, cc_reason = reason\<rparr>"

text \<open>\<open>xs.slice(-2)\<close> and \<open>xs.slice(0, -1)\<close>.\<close>

definition last_two :: "'a list \<Rightarrow> 'a list" where
  "last_two xs = drop (length xs - 2) xs"

text \<open>The ten numbered blocks of \<open>generateAlternatives\<close>, in the order of the source.\<close>

definition removed_ids :: "analysis \<Rightarrow> css_candidate list" where
  "removed_ids a =
     (if hasId a \<and> length (parts a) > 1 then
        (let withoutIds = join '' '' (filter (\<lambda>part. length part > 0)
                                        (map (\<lambda>part. trim (rx_remove id_rx 0 part)) (parts a)))
         in if withoutIds \<noteq> [] then [alt withoutIds 0.7 ''removed-ids''] else [])
      else [])"

definition removed_nth_child :: "analysis \<Rightarrow> css_candidate list" where
  "removed_nth_child a =
     (if hasNthChild a then
        (let withoutNth = join '' '' (filter (\<lambda>part. length part > 0)
                                        (map (\<lambda>part. rx_remove nth_rx 0 part) (parts a)))
         in if withoutNth \<noteq> [] then [alt withoutNth 0.75 ''removed-nth-child''] else [])
      else [])"

definition simplified_hierarchy :: "analysis \<Rightarrow> css_candidate list" where
  "simplified_hierarchy a =
     (if depth a > 2 then [alt (join '' '' (last_two (parts a))) 0.65 ''simplified-hierarchy''] else [])"

definition class_only :: "analysis \<Rightarrow> css_candidate list" where
  "class_only a =
     (if hasClass a \<and> length (classes a) > 0 then
        alt (concat (map (\<lambda>cls. ''.'' @ cls) (classes a))) 0.6 ''class-only''
          # map (\<lambda>cls. alt (''.'' @ cls) 0.55 ''single-class'') (classes a)
      else [])"

definition element_with_classes :: "analysis \<Rightarrow> css_candidate list" where
  "element_with_classes a =
     (if hasElement a \<and> hasClass a \<and> length (elements a) > 0 then
        [alt (last (elements a) @ concat (map (\<lambda>cls. ''.'' @ cls) (classes a))) 0.68
           ''element-with-classes'']
      else [])"

definition direct_child :: "analysis \<Rightarrow> css_candidate list" where
  "direct_child a =
     (if length (parts a) > 1 then [alt (join '' > '' (parts a)) 0.58 ''direct-child''] else [])"

definition attribute_only :: "analysis \<Rightarrow> css_candidate list" where
  "attribute_only a =
     (if hasAttribute a \<and> length (attributes a) > 0
      then map (\<lambda>attr. alt attr 0.72 ''attribute-only'') (attributes a) else [])"

definition first_element_first_class :: "analysis \<Rightarrow> css_candidate list" where
  "first_element_first_class a =
     (if length (elements a) > 0 \<and> length (classes a) > 0
      then [alt (hd (elements a) @ ''.'' @ hd (classes a)) 0.62 ''first-element-first-class'']
      else [])"

definition last_element_only :: "analysis \<Rightarrow> css_candidate list" where
  "last_element_only a =
     (if length (elements a) > 0 then [alt (last (elements a)) 0.5 ''last-element-only''] else [])"

definition parent_element :: "analysis \<Rightarrow> css_candidate list" where
  "parent_element a =
     (if length (parts a) > 1 then [alt (join '' '' (butlast (parts a))) 0.45 ''parent-element'']
      else [])"

definition generateAlternatives :: "analysis \<Rightarrow> css_candidate list" where
  "generateAlternatives a =
     sort_desc cc_confidence
       (dedupe_from cc_selector []
          (removed_ids a @ removed_nth_child a @ simplified_hierarchy a @ class_only a
             @ element_with_classes a @ direct_child a @ attribute_only a
             @ first_element_first_class a @ last_element_only a @ parent_element a))"

definition css_success :: "string \<Rightarrow> css_candidate \<Rightarrow> string list \<Rightarrow> HealingResult" where
  "css_success brokenSelector c alts =
     \<lparr>success = True, selector = cc_selector c, confidence = cc_confidence c,
      strategy = CssHierarchyAnalysis, alternatives = alts, error = None,
      metadata = Some (CssTransform brokenSelector (cc_reason c))\<rparr>"

text \<open>
  The validation loop of \<open>heal\<close> with its list \<open>validCandidates\<close>, and the code after the
  loop (the empty remainder).
\<close>

fun css_validate ::
  "world \<Rightarrow> string \<Rightarrow> css_candidate list \<Rightarrow> css_candidate list \<Rightarrow> css_candidate list
     \<Rightarrow> HealingResult \<times> event list" where
  "css_validate w brokenSelector candidates validCandidates [] =
     (if length validCandidates > 0 then
        (css_success brokenSelector (hd validCandidates)
           (map cc_selector (tl validCandidates)
              @ map cc_selector (filter (\<lambda>c. c \<notin> set validCandidates) candidates)), [])
      else (failure CssHierarchyAnalysis brokenSelector (map cc_selector candidates)
              ''No CSS hierarchy alternatives found'' None, []))"
| "css_validate w brokenSelector candidates validCandidates (c # cs) =
     (let exists = checkSelectorExists w (cc_selector c)
      in with_event (Probe (cc_selector c) exists)
           (if exists then
              (if length (validCandidates @ [c]) = 1 then
                 (css_success brokenSelector c
                    (map cc_selector (filter (\<lambda>d. cc_selector d \<noteq> cc_selector c) candidates)), [])
               else css_validate w brokenSelector candidates (validCandidates @ [c]) cs)
            else css_validate w brokenSelector candidates validCandidates cs))"

definition css_heal :: "world \<Rightarrow> string \<Rightarrow> HealingResult \<times> event list" where
  "css_heal w brokenSelector =
     (let candidates = generateAlternatives (analyzeSelector brokenSelector)
      in css_validate w brokenSelector candidates [] candidates)"

section \<open>Strategy: text matching (\<open>text-content-matching.ts\<close>)\<close>

definition SIMILARITY_THRESHOLD :: real where
  "SIMILARITY_THRESHOLD = 0.8"

definition MAX_ELEMENTS :: nat where
  "MAX_ELEMENTS = 500"

text \<open>
  The five patterns of \<open>extractTextContent\<close>, all with the \<open>i\<close> flag:
  \<open>text[=~*]["']([^"']+)["']\<close>, \<open>:has-text\(["']([^"']+)["']\)\<close>,
  \<open>getByText\(["']([^"']+)["']\)\<close>, \<open>contains\([^,]+,\s*["']([^"']+)["']\)\<close> and
  \<open>(?:innerText|textContent)[=~]["']([^"']+)["']\<close>.
\<close>

definition text_patterns :: "rx list list list" where
  "text_patterns =
     [[lit_i ''text'' @ [One False (\<lambda>c. c = CHR ''='' \<or> c = CHR ''~'' \<or> c = CHR ''*'')] @ quoted_value],
      [lit_i '':has-text('' @ quoted_value @ lit_i '')''],
      [lit_i ''getByText('' @ quoted_value @ lit_i '')''],
      [lit_i ''contains('' @ [One False (\<lambda>c. c \<noteq> CHR '',''), Star False (\<lambda>c. c \<noteq> CHR '',''),
                              One False (\<lambda>c. c = CHR '',''), Star False is_space]
         @ quoted_value @ lit_i '')''],
      [lit_i ''innerText'' @ [One False (\<lambda>c. c = CHR ''='' \<or> c = CHR ''~'')] @ quoted_value,
       lit_i ''textContent'' @ [One False (\<lambda>c. c = CHR ''='' \<or> c = CHR ''~'')] @ quoted_value]]"

definition extractTextContent :: "string \<Rightarrow> string option" where
  "extractTextContent sel = map_option trim (first_capture text_patterns sel)"

text \<open>
  The matrix of \<open>levenshteinSimilarity\<close>: each cell is the least of the left cell plus one,
  the upper cell plus one and the diagonal cell plus the cost of the two characters.
\<close>

fun text_lev_cells :: "char \<Rightarrow> string \<Rightarrow> nat list \<Rightarrow> nat \<Rightarrow> nat list" where
  "text_lev_cells c [] prev left = []"
| "text_lev_cells c (x # xs) (diag # up # prev) left =
     (let cost = (if x = c then 0 else 1);
          v = min (left + 1) (min (up + 1) (diag + cost))
      in v # text_lev_cells c xs (up # prev) v)"
| "text_lev_cells c (x # xs) prev left = []"

fun text_lev_rows :: "string \<Rightarrow> string \<Rightarrow> nat list \<Rightarrow> nat \<Rightarrow> nat list" where
  "text_lev_rows [] str1 row j = row"
| "text_lev_rows (c # cs) str1 row j =
     text_lev_rows cs str1 (j # text_lev_cells c str1 row j) (Suc j)"

definition levenshteinSimilarity :: "string \<Rightarrow> string \<Rightarrow> real" where
  "levenshteinSimilarity str1 str2 =
     (if length str1 = 0 \<or> length str2 = 0 then 0
      else 1 - real (last (text_lev_rows str2 str1 [0 ..< Suc (length str1)] 1))
                 / real (max (length str1) (length str2)))"

definition wordOverlapSimilarity :: "string \<Rightarrow> string \<Rightarrow> real" where
  "wordOverlapSimilarity text1 text2 =
     (let words1 = filter (\<lambda>w. length w > 2) (split_ws text1);
          words2 = filter (\<lambda>w. length w > 2) (split_ws text2)
      in if length words1 = 0 \<or> length words2 = 0 then 0
         else real (length (filter (\<lambda>word. word \<in> set words2) (remdups words1)))
                / real (max (length words1) (length words2)))"

definition calculateTextSimilarity :: "string \<Rightarrow> string \<Rightarrow> real" where
  "calculateTextSimilarity text1 text2 =
     (let s1 = trim (toLowerCase text1); s2 = trim (toLowerCase text2)
      in if s1 = s2 then 1.0
         else let shorter = (if length s1 < length s2 then s1 else s2);
                  longer = (if length s1 < length s2 then s2 else s1)
              in if str_includes longer shorter
                 then 0.85 + (real (length shorter) / real (length longer)) * 0.15
                 else if \<bar>int (length s1) - int (length s2)\<bar> < 10 then levenshteinSimilarity s1 s2
                 else wordOverlapSimilarity s1 s2)"

text \<open>\<open>s.replace(/\s+/g, ' ')\<close>: every run of white space becomes one blank.\<close>

fun collapse_ws :: "bool \<Rightarrow> string \<Rightarrow> string" where
  "collapse_ws in_gap [] = []"
| "collapse_ws in_gap (c # cs) =
     (if is_space c then (if in_gap then collapse_ws True cs else CHR '' '' # collapse_ws True cs)
      else c # collapse_ws False cs)"

definition escapeSelector :: "string \<Rightarrow> string" where
  \<open>escapeSelector t =
     trim (collapse_ws False
       (map (\<lambda>c. if c = CHR 0x0A \<or> c = CHR 0x0D \<or> c = CHR 0x09 then CHR '' '' else c)
          (concat (map (\<lambda>c. if c = CHR 0x22 then [CHR 0x5C, CHR 0x22] else [c])
             (concat (map (\<lambda>c. if c = CHR 0x5C then [CHR 0x5C, CHR 0x5C] else [c]) t))))))\<close>

definition generateTextSelectors :: "ElementInfo \<Rightarrow> string \<Rightarrow> string list" where
  \<open>generateTextSelectors element originalText =
     (let escapedText = escapeSelector (case el_text element of None \<Rightarrow> [] | Some t \<Rightarrow> t);
          escapedOriginal = escapeSelector originalText
      in [''text="'' @ escapedText @ ''"'']
         @ (if escapedText \<noteq> escapedOriginal then [''text="'' @ escapedOriginal @ ''"''] else [])
         @ ['':has-text("'' @ escapedText @ ''")'']
         @ (if el_tag element = ''button'' then
              [''button:has-text("'' @ escapedText @ ''")'', ''button >> text="'' @ escapedText @ ''"'']
            else if el_tag element = ''a'' then [''a:has-text("'' @ escapedText @ ''")'']
            else if el_tag element = ''input'' \<or> el_tag element = ''textarea'' then
              (if truthy (el_ariaLabel element)
               then [''[aria-label="'' @ escapeSelector (the (el_ariaLabel element)) @ ''"]''] else [])
            else [])
         @ (if truthy (el_role element)
            then [''[role="'' @ the (el_role element) @ ''"]:has-text("'' @ escapedText @ ''")''] else [])
         @ [''[title="'' @ escapedText @ ''"]'']
         @ [''[aria-label="'' @ escapedText @ ''"]'']
         @ (if length escapedText > 20 then [''text*="'' @ take 15 escapedText @ ''"''] else []))\<close>

record text_candidate =
  xc_selector :: string
  xc_text :: string
  xc_confidence :: real

definition text_element_candidates ::
  "string \<Rightarrow> string option \<Rightarrow> ElementInfo \<Rightarrow> text_candidate list" where
  "text_element_candidates originalText expType element =
     (if \<not> truthy (el_text element) then []
      else let txt = the (el_text element);
               similarity = calculateTextSimilarity originalText txt
           in if similarity \<ge> SIMILARITY_THRESHOLD then
                (let conf = (if toLowerCase txt = toLowerCase originalText then 0.95
                             else if toLowerCase (trim txt) = toLowerCase (trim originalText) then 0.92
                             else similarity);
                     conf' = (if truthy expType \<and> el_tag element = toLowerCase (the expType)
                              then min (conf + 0.05) 1.0 else conf)
                 in map (\<lambda>sel. \<lparr>xc_selector = sel, xc_text = txt, xc_confidence = conf'\<rparr>)
                      (generateTextSelectors element originalText))
              else [])"

definition text_findCandidates ::
  "string \<Rightarrow> ElementInfo list \<Rightarrow> string option \<Rightarrow> text_candidate list" where
  "text_findCandidates originalText els expType =
     take 10 (sort_desc xc_confidence
                (concat (map (text_element_candidates originalText expType) els)))"

fun text_validate ::
  "world \<Rightarrow> string \<Rightarrow> string \<Rightarrow> text_candidate list \<Rightarrow> text_candidate list
     \<Rightarrow> HealingResult \<times> event list" where
  "text_validate w brokenSelector extracted candidates [] =
     (failure TextContentMatching brokenSelector (map xc_selector candidates)
        ''No matching text elements found on page'' None, [])"
| "text_validate w brokenSelector extracted candidates (c # cs) =
     (let exists = checkSelectorExists w (xc_selector c)
      in with_event (Probe (xc_selector c) exists)
           (if exists then
              (\<lparr>success = True, selector = xc_selector c, confidence = xc_confidence c,
                strategy = TextContentMatching,
                alternatives = map xc_selector (filter (\<lambda>d. xc_selector d \<noteq> xc_selector c) candidates),
                error = None,
                metadata = Some (TextMatch extracted (xc_text c) (xc_confidence c))\<rparr>, [])
            else text_validate w brokenSelector extracted candidates cs))"

text \<open>\<open>options.maxElements || this.MAX_ELEMENTS\<close>: zero counts as absent.\<close>

definition or_default :: "nat option \<Rightarrow> nat \<Rightarrow> nat" where
  "or_default n d = (case n of None \<Rightarrow> d | Some k \<Rightarrow> if k = 0 then d else k)"

definition text_heal :: "world \<Rightarrow> string \<Rightarrow> HealingStrategyOptions \<Rightarrow> HealingResult \<times> event list" where
  "text_heal w brokenSelector options =
     (if \<not> truthy (extractTextContent brokenSelector) then
        (failure TextContentMatching brokenSelector [] ''No text pattern found in selector'' None, [])
      else case evaluate_text w (or_default (maxElements options) MAX_ELEMENTS) of
             Inl msg \<Rightarrow> (failure TextContentMatching brokenSelector [] msg None, [])
           | Inr els \<Rightarrow>
               (let extracted = the (extractTextContent brokenSelector);
                    candidates = text_findCandidates extracted els (expectedType options)
                in text_validate w brokenSelector extracted candidates candidates))"

section \<open>Strategy: LLM analysis (\<open>ai-powered-analysis.ts\<close>)\<close>

record ai_suggestion =
  as_selector :: string
  as_confidence :: real
  as_reasoning :: "string option"

text \<open>
  The regular expressions of \<open>parseAiSuggestions\<close>: \<open>\{[\s\S]*"suggestions"[\s\S]*\}\<close> for
  the JSON object, \<open>"selector"\s*:\s*"([^"]+)"\<close> for the quoted fields, and the four
  selector shapes of the last fallback.
\<close>

definition json_rx :: "rx list" where
  \<open>json_rx = [One False (\<lambda>c. c = CHR ''{''), Star False (\<lambda>c. True)] @ lit ''"suggestions"''
               @ [Star False (\<lambda>c. True), One False (\<lambda>c. c = CHR ''}'')]\<close>

definition selector_field_rx :: "rx list" where
  \<open>selector_field_rx =
     lit ''"selector"'' @ [Star False is_space, One False (\<lambda>c. c = CHR '':''), Star False is_space,
                           One False (\<lambda>c. c = CHR 0x22), One True (\<lambda>c. c \<noteq> CHR 0x22),
                           Star True (\<lambda>c. c \<noteq> CHR 0x22), One False (\<lambda>c. c = CHR 0x22)]\<close>

definition shape_rxs :: "rx list list" where
  "shape_rxs =
     [lit ''[data-testid='' @ quoted_value @ lit '']'',
      lit ''[role='' @ quoted_value @ lit '']'',
      lit ''text='' @ quoted_value,
      lit ''button:has-text('' @ quoted_value @ lit '')'']"

text \<open>\<open>item.confidence || 0.7\<close>: an absent confidence and the number zero give the default.\<close>

definition confidence_or_default :: "real option \<Rightarrow> real" where
  "confidence_or_default c = (case c of None \<Rightarrow> 0.7 | Some x \<Rightarrow> if x = 0 then 0.7 else x)"

definition suggestions_of_items :: "llm_item list \<Rightarrow> ai_suggestion list" where
  "suggestions_of_items items =
     map (\<lambda>item. \<lparr>as_selector = trim (the (item_selector item)),
                    as_confidence = confidence_or_default (item_confidence item),
                    as_reasoning = item_reasoning item\<rparr>)
       (filter (\<lambda>item. truthy (item_selector item)) items)"

text \<open>
  The body of the \<open>try\<close> block. When \<open>JSON.parse\<close> throws, the \<open>catch\<close> leaves the list
  empty and the two fallbacks are not reached.
\<close>

definition collect_suggestions :: "world \<Rightarrow> string \<Rightarrow> ai_suggestion list" where
  "collect_suggestions w response =
     (case (case rx_search [json_rx] response of
              None \<Rightarrow> Some []
            | Some (jsonMatch, g) \<Rightarrow>
                (case json_parse w jsonMatch of
                   None \<Rightarrow> None
                 | Some None \<Rightarrow> Some []
                 | Some (Some items) \<Rightarrow> Some (suggestions_of_items items))) of
        None \<Rightarrow> []
      | Some fromJson \<Rightarrow>
          (let quoted = (if length fromJson = 0
                         then map (\<lambda>m. \<lparr>as_selector = trim (snd m), as_confidence = 0.7,
                                          as_reasoning = None\<rparr>)
                                (rx_scan selector_field_rx 0 response)
                         else fromJson)
           in if length quoted = 0
              then concat (map (\<lambda>pattern.
                     map (\<lambda>m. \<lparr>as_selector = fst m, as_confidence = 0.6, as_reasoning = None\<rparr>)
                       (rx_scan pattern 0 response)) shape_rxs)
              else quoted))"

definition parseAiSuggestions :: "world \<Rightarrow> string \<Rightarrow> ai_suggestion list" where
  "parseAiSuggestions w response =
     take 5 (sort_desc as_confidence (dedupe_from as_selector [] (collect_suggestions w response)))"

fun ai_validate ::
  "world \<Rightarrow> string \<Rightarrow> string \<Rightarrow> ai_suggestion list \<Rightarrow> ai_suggestion list
     \<Rightarrow> HealingResult \<times> event list" where
  "ai_validate w brokenSelector aiResponse suggestions [] =
     (failure AiPoweredAnalysis brokenSelector (map as_selector suggestions)
        ''None of the AI suggestions matched elements on the page''
        (Some (AiResponse aiResponse (Some (length suggestions)))), [])"
| "ai_validate w brokenSelector aiResponse suggestions (c # cs) =
     (let exists = checkSelectorExists w (as_selector c)
      in with_event (Probe (as_selector c) exists)
           (if exists then
              (\<lparr>success = True, selector = as_selector c, confidence = as_confidence c,
                strategy = AiPoweredAnalysis,
                alternatives = map as_selector (filter (\<lambda>d. as_selector d \<noteq> as_selector c) suggestions),
                error = None,
                metadata = Some (AiReasoning (as_reasoning c) (length suggestions))\<rparr>, [])
            else ai_validate w brokenSelector aiResponse suggestions cs))"

definition ai_heal :: "world \<Rightarrow> string \<Rightarrow> HealingStrategyOptions \<Rightarrow> HealingResult \<times> event list" where
  "ai_heal w brokenSelector options =
     (if ollama_tags w \<noteq> Some True then
        (failure AiPoweredAnalysis brokenSelector []
           ''Ollama is not available. Please ensure Ollama is running.'' None, [])
      else case page_context w of
             Some msg \<Rightarrow> (failure AiPoweredAnalysis brokenSelector [] (''AI analysis failed: '' @ msg) None, [])
           | None \<Rightarrow>
               (case ollama_generate w of
                  Inl msg \<Rightarrow>
                    (failure AiPoweredAnalysis brokenSelector [] (''AI analysis failed: '' @ msg) None, [])
                | Inr aiResponse \<Rightarrow>
                    (let suggestions = parseAiSuggestions w aiResponse
                     in if length suggestions = 0 then
                          (failure AiPoweredAnalysis brokenSelector []
                             ''AI did not suggest any alternatives'' (Some (AiResponse aiResponse None)), [])
                        else ai_validate w brokenSelector aiResponse suggestions suggestions)))"

section \<open>URL validation (\<open>utils.ts\<close>) and the construction of the LLM strategy\<close>

text \<open>
  The two components of \<open>new URL(url)\<close> that \<open>validateUrl\<close> reads. The URL parser belongs
  to the platform: the model takes it as a parameter \<open>url_parse\<close>, which gives \<open>None\<close> when
  \<open>new URL\<close> throws. The parser gives the host name in lower case, and an empty \<open>port\<close> when
  the URL has no port or the default port of its scheme.
\<close>

record parsed_url =
  hostname :: string
  port :: string

definition default_allowed_hosts :: "string list" where
  "default_allowed_hosts = [''localhost'', ''127.0.0.1'']"

definition allowed_ports :: "string list" where
  "allowed_ports = [''80'', ''443'', ''8080'', ''11434'']"

definition validateUrl :: "(string \<Rightarrow> parsed_url option) \<Rightarrow> string \<Rightarrow> string list \<Rightarrow> bool" where
  "validateUrl url_parse url allowedHosts =
     (case url_parse url of
        None \<Rightarrow> False
      | Some urlObj \<Rightarrow>
          (let host_name = toLowerCase (hostname urlObj);
               isAllowed = list_ex (\<lambda>host. host_name = host \<or> endsWith host_name (''.'' @ host)) allowedHosts
           in if \<not> isAllowed then False
              else if port urlObj \<noteq> [] \<and> port urlObj \<notin> set allowed_ports then False
              else True))"

record ai_options =
  opt_ollamaUrl :: "string option"
  opt_model :: "string option"
  opt_timeout :: "nat option"

record ai_strategy =
  ollamaUrl :: string
  model :: string
  timeout :: nat

text \<open>The constructor of \<open>AiPoweredAnalysisStrategy\<close>; \<open>Inl\<close> is the message of the error it throws.\<close>

definition new_AiPoweredAnalysisStrategy ::
  "(string \<Rightarrow> parsed_url option) \<Rightarrow> ai_options \<Rightarrow> string + ai_strategy" where
  "new_AiPoweredAnalysisStrategy url_parse options =
     (let u = (if truthy (opt_ollamaUrl options) then the (opt_ollamaUrl options)
               else ''http://localhost:11434'')
      in if \<not> validateUrl url_parse u default_allowed_hosts then
           Inl ''Invalid Ollama URL. Only localhost and 127.0.0.1 are allowed for security.''
         else Inr \<lparr>ollamaUrl = u,
                   model = (if truthy (opt_model options) then the (opt_model options)
                            else ''qwen2.5-coder:3b''),
                   timeout = or_default (opt_timeout options) 30000\<rparr>)"

section \<open>The healing engine (\<open>healer.ts\<close>)\<close>

datatype log_level = Debug | Info | Warn | Error

record ollama_config =
  url :: string
  ollama_model :: string
  ollama_timeout :: nat

record retry_config =
  onTimeout :: bool
  onFlakiness :: bool
  maxRetries :: int
  initialBackoff :: int

record telemetry_config =
  telemetry_enabled :: bool
  logLevel :: log_level

text \<open>\<open>Required<HealingConfig>\<close>: the configuration after \<open>mergeWithDefaults\<close>.\<close>

record config =
  enabled :: bool
  strategies :: "HealingStrategy list"
  maxAttempts :: nat
  cacheHealing :: bool
  ollama :: ollama_config
  retry :: retry_config
  telemetry :: telemetry_config

text \<open>\<open>HealingConfig\<close>: what the caller passes, every field optional.\<close>

record ollama_partial =
  p_url :: "string option"
  p_model :: "string option"
  p_timeout :: "nat option"

record retry_partial =
  p_onTimeout :: "bool option"
  p_onFlakiness :: "bool option"
  p_maxRetries :: "int option"
  p_initialBackoff :: "int option"

record telemetry_partial =
  p_telemetry_enabled :: "bool option"
  p_logLevel :: "log_level option"

record HealingConfig =
  p_enabled :: "bool option"
  p_strategies :: "HealingStrategy list option"
  p_maxAttempts :: "nat option"
  p_cacheHealing :: "bool option"
  p_ollama :: "ollama_partial option"
  p_retry :: "retry_partial option"
  p_telemetry :: "telemetry_partial option"

text \<open>\<open>a ?? d\<close> and \<open>o?.f ?? d\<close>.\<close>

definition nullish :: "'a option \<Rightarrow> 'a \<Rightarrow> 'a" where
  "nullish a d = (case a of None \<Rightarrow> d | Some v \<Rightarrow> v)"

definition field_or :: "'r option \<Rightarrow> ('r \<Rightarrow> 'a option) \<Rightarrow> 'a \<Rightarrow> 'a" where
  "field_or r f d = nullish (case r of None \<Rightarrow> None | Some v \<Rightarrow> f v) d"

definition mergeWithDefaults :: "HealingConfig \<Rightarrow> config" where
  "mergeWithDefaults c =
     \<lparr>enabled = nullish (p_enabled c) True,
      strategies = nullish (p_strategies c)
        [DataTestidRecovery, TextContentMatching, CssHierarchyAnalysis, AiPoweredAnalysis],
      maxAttempts = nullish (p_maxAttempts c) 3,
      cacheHealing = nullish (p_cacheHealing c) True,
      ollama = \<lparr>url = field_or (p_ollama c) p_url ''http://localhost:11434'',
                 ollama_model = field_or (p_ollama c) p_model ''qwen2.5-coder:3b'',
                 ollama_timeout = field_or (p_ollama c) p_timeout 30000\<rparr>,
      retry = \<lparr>onTimeout = field_or (p_retry c) p_onTimeout True,
                onFlakiness = field_or (p_retry c) p_onFlakiness True,
                maxRetries = field_or (p_retry c) p_maxRetries 2,
                initialBackoff = field_or (p_retry c) p_initialBackoff 1000\<rparr>,
      telemetry = \<lparr>telemetry_enabled = field_or (p_telemetry c) p_telemetry_enabled True,
                    logLevel = field_or (p_telemetry c) p_logLevel Info\<rparr>\<rparr>"

record flakiness =
  successes :: nat
  failures :: nat

text \<open>
  The state of one engine. The three JavaScript \<open>Map\<close>s are association lists in insertion
  order; of the strategy table only the keys are kept, since the strategy objects hold no
  state that the modelled behaviour reads. Console output is not modelled.
\<close>

record HealingEngine =
  engine_config :: config
  strategy_table :: "HealingStrategy list"
  cache :: "(string \<times> HealingCacheEntry) list"
  flakinessTracker :: "(string \<times> flakiness) list"

text \<open>
  \<open>initializeStrategies\<close>: the table is cleared and refilled; the fourth constructor may
  throw, after the first three entries are in. The result is the table and the error thrown.
\<close>

definition initializeStrategies ::
  "(string \<Rightarrow> parsed_url option) \<Rightarrow> config \<Rightarrow> HealingStrategy list \<times> string option" where
  "initializeStrategies url_parse c =
     (case new_AiPoweredAnalysisStrategy url_parse
             \<lparr>opt_ollamaUrl = Some (url (ollama c)), opt_model = Some (ollama_model (ollama c)),
              opt_timeout = Some (ollama_timeout (ollama c))\<rparr> of
        Inl msg \<Rightarrow> ([DataTestidRecovery, TextContentMatching, CssHierarchyAnalysis], Some msg)
      | Inr ai \<Rightarrow>
          ([DataTestidRecovery, TextContentMatching, CssHierarchyAnalysis, AiPoweredAnalysis], None))"

text \<open>The constructor of \<open>HealingEngine\<close>; \<open>Inl\<close> is the message of the error it throws.\<close>

definition new_HealingEngine ::
  "(string \<Rightarrow> parsed_url option) \<Rightarrow> HealingConfig \<Rightarrow> string + HealingEngine" where
  "new_HealingEngine url_parse c =
     (case initializeStrategies url_parse (mergeWithDefaults c) of
        (table, Some msg) \<Rightarrow> Inl msg
      | (table, None) \<Rightarrow>
          Inr \<lparr>engine_config = mergeWithDefaults c, strategy_table = table, cache = [],
                flakinessTracker = []\<rparr>)"

definition trackSuccess :: "string \<Rightarrow> HealingEngine \<Rightarrow> HealingEngine" where
  "trackSuccess sel e =
     (let stats = (case map_of (flakinessTracker e) sel of
                     None \<Rightarrow> \<lparr>successes = 0, failures = 0\<rparr> | Some st \<Rightarrow> st)
      in e\<lparr>flakinessTracker :=
             AList.update sel (stats\<lparr>successes := successes stats + 1\<rparr>) (flakinessTracker e)\<rparr>)"

definition trackFailure :: "string \<Rightarrow> HealingEngine \<Rightarrow> HealingEngine" where
  "trackFailure sel e =
     (let stats = (case map_of (flakinessTracker e) sel of
                     None \<Rightarrow> \<lparr>successes = 0, failures = 0\<rparr> | Some st \<Rightarrow> st)
      in e\<lparr>flakinessTracker :=
             AList.update sel (stats\<lparr>failures := failures stats + 1\<rparr>) (flakinessTracker e)\<rparr>)"

text \<open>The call \<open>strategy.heal(page, brokenSelector, options)\<close> on the strategy of a name.\<close>

definition strategy_heal ::
  "world \<Rightarrow> HealingStrategy \<Rightarrow> string \<Rightarrow> HealingStrategyOptions \<Rightarrow> HealingResult \<times> event list" where
  "strategy_heal w name brokenSelector options =
     (case name of
        DataTestidRecovery \<Rightarrow> testid_heal w brokenSelector options
      | TextContentMatching \<Rightarrow> text_heal w brokenSelector options
      | CssHierarchyAnalysis \<Rightarrow> css_heal w brokenSelector
      | AiPoweredAnalysis \<Rightarrow> ai_heal w brokenSelector options)"

text \<open>
  The inner loop of \<open>heal\<close> over the configured strategy names. The result is the successful
  strategy with its result (if any), the value of \<open>lastResult\<close> and the events.
\<close>

fun try_strategies ::
  "world \<Rightarrow> HealingStrategy list \<Rightarrow> string \<Rightarrow> HealingStrategyOptions \<Rightarrow> HealingStrategy list
     \<Rightarrow> HealingResult option
     \<Rightarrow> (HealingStrategy \<times> HealingResult) option \<times> HealingResult option \<times> event list" where
  "try_strategies w table brokenSelector options [] lastResult = (None, lastResult, [])"
| "try_strategies w table brokenSelector options (strategyName # names) lastResult =
     (if strategyName \<notin> set table then try_strategies w table brokenSelector options names lastResult
      else let (result, evs) = strategy_heal w strategyName brokenSelector options
           in if success result then (Some (strategyName, result), Some result, Invoke strategyName # evs)
              else let (hit, lastResult', evs') =
                         try_strategies w table brokenSelector options names (Some result)
                   in (hit, lastResult', Invoke strategyName # evs @ evs'))"

text \<open>The outer loop \<open>for (attempt = 0; attempt < maxAttempts; attempt++)\<close> with its delay.\<close>

function heal_attempts ::
  "world \<Rightarrow> HealingStrategy list \<Rightarrow> config \<Rightarrow> string \<Rightarrow> HealingStrategyOptions \<Rightarrow> nat
     \<Rightarrow> HealingResult option
     \<Rightarrow> (HealingStrategy \<times> HealingResult) option \<times> HealingResult option \<times> event list" where
  "heal_attempts w table c brokenSelector options attempt lastResult =
     (if attempt < maxAttempts c then
        (case try_strategies w table brokenSelector options (strategies c) lastResult of
           (Some hit, lastResult', evs) \<Rightarrow> (Some hit, lastResult', evs)
         | (None, lastResult', evs) \<Rightarrow>
             (let pause = (if attempt < maxAttempts c - 1 then [Sleep (1000 * (attempt + 1))] else []);
                  (hit, lastResult'', evs') =
                     heal_attempts w table c brokenSelector options (attempt + 1) lastResult'
              in (hit, lastResult'', evs @ pause @ evs')))
      else (None, lastResult, []))"
  by pat_completeness auto
termination
  by (relation "measure (\<lambda>(w, table, c, brokenSelector, options, attempt, lastResult).
                  maxAttempts c - attempt)") auto

declare heal_attempts.simps [simp del]

text \<open>
  The cache check at the head of \<open>heal\<close>: the use count of a found entry is incremented in
  place, its healed selector is probed; a present one is returned, an absent one is deleted.
\<close>

definition cache_check ::
  "world \<Rightarrow> HealingEngine \<Rightarrow> string \<Rightarrow> HealingResult option \<times> HealingEngine \<times> event list" where
  "cache_check w e brokenSelector =
     (if cacheHealing (engine_config e) then
        (case map_of (cache e) brokenSelector of
           None \<Rightarrow> (None, e, [])
         | Some found \<Rightarrow>
             (let cached = found\<lparr>useCount := useCount found + 1\<rparr>;
                  exists = checkSelectorExists w (healed cached)
              in if exists then
                   (Some \<lparr>success = True, selector = healed cached,
                          confidence = entry_confidence cached, strategy = entry_strategy cached,
                          alternatives = [], error = None,
                          metadata = Some (Cached (useCount cached))\<rparr>,
                    e\<lparr>cache := AList.update brokenSelector cached (cache e)\<rparr>,
                    [Probe (healed cached) True])
                 else (None, e\<lparr>cache := AList.delete brokenSelector (cache e)\<rparr>,
                       [Probe (healed cached) False])))
      else (None, e, []))"

text \<open>
  \<open>heal\<close>. The arguments are the collaborators as this call observes them, the time
  \<open>new Date()\<close> gives, the engine, the broken selector and the options; the result is the
  \<open>HealingResult\<close>, the engine after the call and the events of the call.
\<close>

definition heal ::
  "world \<Rightarrow> nat \<Rightarrow> HealingEngine \<Rightarrow> string \<Rightarrow> HealingStrategyOptions
     \<Rightarrow> HealingResult \<times> HealingEngine \<times> event list" where
  "heal w now e brokenSelector options =
     (if \<not> enabled (engine_config e) then
        (\<lparr>success = False, selector = brokenSelector, confidence = 0,
          strategy = DataTestidRecovery, alternatives = [], error = Some ''Healing is disabled'',
          metadata = None\<rparr>, e, [])
      else case cache_check w e brokenSelector of
             (Some result, e1, evs1) \<Rightarrow> (result, e1, evs1)
           | (None, e1, evs1) \<Rightarrow>
               (let exists = checkSelectorExists w brokenSelector
                in if exists then
                     (\<lparr>success = True, selector = brokenSelector, confidence = 1.0,
                       strategy = DataTestidRecovery, alternatives = [], error = None,
                       metadata = Some NoHealingNeeded\<rparr>,
                      trackSuccess brokenSelector e1, evs1 @ [Probe brokenSelector True])
                   else
                     (case heal_attempts w (strategy_table e1) (engine_config e1) brokenSelector
                             options 0 None of
                        (Some (strategyName, result), lastResult, evs) \<Rightarrow>
                          (let e2 = (if cacheHealing (engine_config e1) then
                                       e1\<lparr>cache := AList.update brokenSelector
                                            \<lparr>original = brokenSelector, healed = selector result,
                                             entry_confidence = confidence result,
                                             entry_strategy = strategyName, timestamp = now,
                                             useCount = 1\<rparr> (cache e1)\<rparr>
                                     else e1)
                           in (result, trackSuccess (selector result) e2,
                               evs1 @ [Probe brokenSelector False] @ evs))
                      | (None, lastResult, evs) \<Rightarrow>
                          ((case lastResult of
                              Some result \<Rightarrow> result
                            | None \<Rightarrow>
                                \<lparr>success = False, selector = brokenSelector, confidence = 0,
                                 strategy = DataTestidRecovery, alternatives = [],
                                 error = Some ''All healing strategies failed'', metadata = None\<rparr>),
                           trackFailure brokenSelector e1,
                           evs1 @ [Probe brokenSelector False] @ evs))))"

datatype health_status = Healthy | Degraded | Offline

record health =
  status :: health_status
  strategy_health :: "(HealingStrategy \<times> bool) list"
  cache_size :: nat
  cache_entries :: nat

text \<open>
  \<open>healthCheck\<close>. \<open>tags\<close> is the outcome of the request to \<open>/api/tags\<close>, made only when
  the LLM strategy is in the table: \<open>Some response.ok\<close>, or \<open>None\<close> when \<open>fetch\<close> throws or
  times out.
\<close>

definition healthCheck :: "bool option \<Rightarrow> HealingEngine \<Rightarrow> health" where
  "healthCheck tags e =
     (let strategyHealth =
            (if AiPoweredAnalysis \<in> set (strategy_table e)
             then [(AiPoweredAnalysis, (case tags of Some ok \<Rightarrow> ok | None \<Rightarrow> False))] else [])
            @ [(DataTestidRecovery, True), (TextContentMatching, True), (CssHierarchyAnalysis, True)];
          allHealthy = list_all snd strategyHealth;
          someHealthy = list_ex snd strategyHealth
      in \<lparr>status = (if allHealthy then Healthy else if someHealthy then Degraded else Offline),
          strategy_health = strategyHealth,
          cache_size = length (cache e),
          cache_entries = sum_list (map (\<lambda>kv. useCount (snd kv)) (cache e))\<rparr>)"

record flakiness_stat =
  fs_selector :: string
  fs_successes :: nat
  fs_failures :: nat
  flakinessScore :: real

definition getFlakinessStats :: "HealingEngine \<Rightarrow> flakiness_stat list" where
  "getFlakinessStats e =
     sort_desc flakinessScore
       (filter (\<lambda>st. flakinessScore st > 0)
          (map (\<lambda>kv. let total = successes (snd kv) + failures (snd kv)
                      in \<lparr>fs_selector = fst kv, fs_successes = successes (snd kv),
                          fs_failures = failures (snd kv),
                          flakinessScore = (if total > 0 then real (failures (snd kv)) / real total
                                            else 0)\<rparr>)
             (flakinessTracker e)))"

definition clearCache :: "HealingEngine \<Rightarrow> HealingEngine" where
  "clearCache e = e\<lparr>cache := []\<rparr>"

section \<open>The retry handler (\<open>retry-handler.ts\<close>)\<close>

record RetryOptions =
  opt_maxRetries :: "int option"
  opt_initialBackoff :: "int option"
  opt_maxBackoff :: "int option"

definition timeoutPatterns :: "string list" where
  "timeoutPatterns = [''timeout'', ''timed out'', ''waiting for selector'', ''waiting for element'',
                      ''exceeded timeout'']"

definition networkPatterns :: "string list" where
  "networkPatterns = [''net::err'', ''network error'', ''connection refused'', ''econnrefused'',
                      ''socket hang up'']"

definition flakyPatterns :: "string list" where
  "flakyPatterns = [''element is not visible'', ''element is not attached'', ''element is not stable'',
                    ''intercepts pointer events'', ''not actionable'']"

definition locatorPatterns :: "string list" where
  "locatorPatterns = [''locator'', ''selector'', ''element not found'', ''no element matches'',
                      ''could not find'']"

text \<open>\<open>shouldRetry\<close>; an error is given by its message.\<close>

definition shouldRetry :: "config \<Rightarrow> string \<Rightarrow> int \<Rightarrow> int \<Rightarrow> bool" where
  "shouldRetry c message attempt maxRetries' =
     (if attempt \<ge> maxRetries' then False
      else let errorMessage = toLowerCase message
           in if onTimeout (retry c) \<and> list_ex (\<lambda>pattern. str_includes errorMessage pattern) timeoutPatterns
              then True
              else if list_ex (\<lambda>pattern. str_includes errorMessage pattern) networkPatterns then True
              else if onFlakiness (retry c) \<and> list_ex (\<lambda>pattern. str_includes errorMessage pattern) flakyPatterns
              then True
              else False)"

definition isLocatorError :: "string \<Rightarrow> bool" where
  "isLocatorError message =
     list_ex (\<lambda>pattern. str_includes (toLowerCase message) pattern) locatorPatterns"

text \<open>
  What \<open>withRetry\<close> does that can be seen from outside: calls of the action (with their
  number), the points where the \<open>onRetry\<close> callback is called if one is given, and delays.
\<close>

datatype retry_event = Called nat | OnRetry int string | Delayed int

text \<open>
  The loop of \<open>withRetry\<close>. The action is given by the outcome of each of its calls:
  \<open>action n\<close> is the outcome of call number \<open>n\<close> (from 0), \<open>Inl message\<close> when it throws.
  The result is what \<open>withRetry\<close> returns (\<open>Inr\<close>) or the message of what it throws (\<open>Inl\<close>).
\<close>

function retry_loop ::
  "config \<Rightarrow> (nat \<Rightarrow> string + 'a) \<Rightarrow> int \<Rightarrow> int \<Rightarrow> int \<Rightarrow> int \<Rightarrow> string option
     \<Rightarrow> (string + 'a) \<times> retry_event list" where
  "retry_loop c action maxRetries' maxBackoff attempt backoff lastError =
     (if attempt \<le> maxRetries' then
        (case action (nat attempt) of
           Inr v \<Rightarrow> (Inr v, [Called (nat attempt)])
         | Inl message \<Rightarrow>
             (if \<not> shouldRetry c message attempt maxRetries' then (Inl message, [Called (nat attempt)])
              else let evs = [Called (nat attempt), OnRetry (attempt + 1) message]
                           @ (if attempt < maxRetries' then [Delayed backoff] else []);
                       backoff' = (if attempt < maxRetries' then min (backoff * 2) maxBackoff else backoff);
                       (r, evs') = retry_loop c action maxRetries' maxBackoff (attempt + 1) backoff' (Some message)
                   in (r, evs @ evs')))
      else ((case lastError of Some message \<Rightarrow> Inl message | None \<Rightarrow> Inl ''Max retries exceeded''), []))"
  by pat_completeness auto
termination
  by (relation "measure (\<lambda>(c, action, maxRetries', maxBackoff, attempt, backoff, lastError).
                  nat (maxRetries' + 1 - attempt))") auto

declare retry_loop.simps [simp del]

definition withRetry ::
  "config \<Rightarrow> (nat \<Rightarrow> string + 'a) \<Rightarrow> RetryOptions \<Rightarrow> (string + 'a) \<times> retry_event list" where
  "withRetry c action options =
     (let maxRetries' = nullish (opt_maxRetries options) (maxRetries (retry c));
          initialBackoff' = nullish (opt_initialBackoff options) (initialBackoff (retry c));
          maxBackoff = nullish (opt_maxBackoff options) 10000
      in retry_loop c action maxRetries' maxBackoff 0 initialBackoff' None)"

section \<open>Notions used in the statements, and concrete inputs\<close>

text \<open>An error message contains one of the patterns, case-insensitively.\<close>

definition matches_any :: "string \<Rightarrow> string list \<Rightarrow> bool" where
  "matches_any message patterns = list_ex (\<lambda>pattern. str_includes (toLowerCase message) pattern) patterns"

text \<open>The configuration \<open>{}\<close>, the retry options \<open>{}\<close> and an action that throws at every call.\<close>

definition empty_config :: HealingConfig where
  "empty_config = \<lparr>p_enabled = None, p_strategies = None, p_maxAttempts = None, p_cacheHealing = None,
      p_ollama = None, p_retry = None, p_telemetry = None\<rparr>"

definition no_retry_options :: RetryOptions where
  "no_retry_options = \<lparr>opt_maxRetries = None, opt_initialBackoff = None, opt_maxBackoff = None\<rparr>"

definition always_throws :: "string \<Rightarrow> nat \<Rightarrow> string + unit" where
  "always_throws message n = Inl message"

text \<open>The options \<open>{}\<close> of a \<open>heal\<close> call.\<close>

definition no_options :: HealingStrategyOptions where
  "no_options = \<lparr>expectedType = None, maxElements = None\<rparr>"

text \<open>
  A URL parser that knows three URLs, with the components the platform parser gives for them.
\<close>

definition local_parse :: "string \<Rightarrow> parsed_url option" where
  "local_parse u =
     (if u = ''http://localhost:11434'' then Some \<lparr>hostname = ''localhost'', port = ''11434''\<rparr>
      else if u = ''http://evil.localhost:11434''
        then Some \<lparr>hostname = ''evil.localhost'', port = ''11434''\<rparr>
      else if u = ''http://example.com:11434''
        then Some \<lparr>hostname = ''example.com'', port = ''11434''\<rparr>
      else None)"

text \<open>The engine \<open>new HealingEngine({})\<close>.\<close>

definition default_engine :: HealingEngine where
  "default_engine = \<lparr>engine_config = mergeWithDefaults empty_config,
      strategy_table = [DataTestidRecovery, TextContentMatching, CssHierarchyAnalysis, AiPoweredAnalysis],
      cache = [], flakinessTracker = []\<rparr>"

text \<open>A configuration whose only setting is the URL of the LLM endpoint.\<close>

definition config_with_url :: "string \<Rightarrow> HealingConfig" where
  "config_with_url u = empty_config\<lparr>p_ollama := Some \<lparr>p_url = Some u, p_model = None, p_timeout = None\<rparr>\<rparr>"

text \<open>
  The URL the LLM strategy validates: the configured one, or the default when that is empty.
\<close>

definition effective_url :: "string \<Rightarrow> string" where
  "effective_url u = (if u = [] then ''http://localhost:11434'' else u)"

text \<open>
  The two checks in words: the host name is an allowed host or ends with a dot and an
  allowed host, and the port component is empty or one of the allowed ports. A URL that
  does not parse passes neither.
\<close>

definition passes_allow_lists :: "parsed_url option \<Rightarrow> bool" where
  "passes_allow_lists r =
     (case r of
        None \<Rightarrow> False
      | Some p \<Rightarrow>
          list_ex (\<lambda>h. toLowerCase (hostname p) = h \<or> endsWith (toLowerCase (hostname p)) (''.'' @ h))
            default_allowed_hosts
          \<and> (port p = [] \<or> port p \<in> set allowed_ports))"

text \<open>A page element that has a tag and a test id only.\<close>

definition page_element :: "string \<Rightarrow> string \<Rightarrow> ElementInfo" where
  "page_element tg tid = \<lparr>el_tag = tg, el_id = None, el_classes = [], el_text = None,
      el_testId = Some tid, el_role = None, el_ariaLabel = None, el_type = None, el_name = None\<rparr>"

text \<open>
  The candidate \<open>findCandidates\<close> emits under one attribute for a page test id that
  contains the extracted one.
\<close>

definition contains_candidate :: "string \<Rightarrow> string \<Rightarrow> real \<Rightarrow> testid_candidate" where
  \<open>contains_candidate attr pageId conf =
     \<lparr>tc_selector = ''['' @ attr @ ''="'' @ pageId @ ''"]'', tc_testId = pageId,
      tc_confidence = conf, tc_matchType = ''contains''\<rparr>\<close>

text \<open>
  What holds of the outcome of a strategy: a success comes with a probe of the returned
  selector that found it, and the metadata are never those of a cache hit.
\<close>

definition strategy_ok :: "world \<Rightarrow> HealingResult \<times> event list \<Rightarrow> bool" where
  "strategy_ok w p \<longleftrightarrow>
     (success (fst p) \<longrightarrow> Probe (selector (fst p)) True \<in> set (snd p) \<and> checkSelectorExists w (selector (fst p)))
     \<and> (\<forall>n. metadata (fst p) \<noteq> Some (Cached n))"

definition failed_ok :: "HealingResult option \<Rightarrow> bool" where
  "failed_ok lastR \<longleftrightarrow> (\<forall>r. lastR = Some r \<longrightarrow> \<not> success r \<and> (\<forall>n. metadata r \<noteq> Some (Cached n)))"

definition hit_ok ::
  "world \<Rightarrow> (HealingStrategy \<times> HealingResult) option \<times> HealingResult option \<times> event list \<Rightarrow> bool" where
  "hit_ok w t \<longleftrightarrow>
     (case t of
        (Some (name, r), lastR, evs) \<Rightarrow>
          success r \<and> Probe (selector r) True \<in> set evs \<and> checkSelectorExists w (selector r)
          \<and> (\<forall>n. metadata r \<noteq> Some (Cached n))
      | (None, lastR, evs) \<Rightarrow> failed_ok lastR)"

text \<open>
  The broken selector of the CSS scenario, and the alternatives \<open>generateAlternatives\<close>
  gives for it, in the order in which they are probed.
\<close>

definition css_broken :: string where
  "css_broken = ''div#app > main.content > section:nth-child(3) > button#submit''"

definition css_broken_candidates :: "css_candidate list" where
  "css_broken_candidates =
     [alt ''div#app > main.content > section > button#submit'' 0.75 ''removed-nth-child'',
      alt ''div > main.content > section:nth-child(3) > button'' 0.7 ''removed-ids'',
      alt ''button.content'' 0.68 ''element-with-classes'',
      alt ''> button#submit'' 0.65 ''simplified-hierarchy'',
      alt ''div.content'' 0.62 ''first-element-first-class'',
      alt ''.content'' 0.6 ''class-only'',
      alt ''div#app > > > main.content > > > section:nth-child(3) > > > button#submit'' 0.58 ''direct-child'',
      alt ''button'' 0.5 ''last-element-only'',
      alt ''div#app > main.content > section:nth-child(3) >'' 0.45 ''parent-element'']"

text \<open>
  A page whose one element is \<open><button class="submit-btn">\<close>: the selectors \<open>button\<close>,
  \<open>.submit-btn\<close> and \<open>button.submit-btn\<close> resolve to one element, every other selector to
  none. The LLM backend is not reachable.
\<close>

definition button_page :: world where
  "button_page =
     \<lparr>locator_count = (\<lambda>sel. if sel \<in> set [''button'', ''.submit-btn'', ''button.submit-btn'']
                               then Some 1 else Some 0),
      evaluate_testid = Inr [], evaluate_text = (\<lambda>n. Inr []), page_context = None,
      ollama_tags = None, ollama_generate = Inl ''fetch failed'', json_parse = (\<lambda>s. None)\<rparr>"

text \<open>The result of the CSS strategy when \<open>button\<close> is the first alternative that resolves.\<close>

definition button_result :: HealingResult where
  "button_result =
     \<lparr>success = True, selector = ''button'', confidence = 0.5, strategy = CssHierarchyAnalysis,
      alternatives = map cc_selector (filter (\<lambda>c. cc_selector c \<noteq> ''button'') css_broken_candidates),
      error = None, metadata = Some (CssTransform css_broken ''last-element-only'')\<rparr>"

text \<open>A page on which no selector resolves, with the LLM backend not reachable.\<close>

definition dead_world :: world where
  "dead_world =
     \<lparr>locator_count = (\<lambda>sel. Some 0), evaluate_testid = Inr [], evaluate_text = (\<lambda>n. Inr []),
      page_context = None, ollama_tags = None, ollama_generate = Inl ''fetch failed'',
      json_parse = (\<lambda>s. None)\<rparr>"

text \<open>An engine whose cache holds one entry, for the broken selector \<open>#old\<close>.\<close>

definition stale_entry :: HealingCacheEntry where
  "stale_entry = \<lparr>original = ''#old'', healed = ''#gone'', entry_confidence = 0.95,
      entry_strategy = DataTestidRecovery, timestamp = 0, useCount = 1\<rparr>"

definition stale_engine :: HealingEngine where
  "stale_engine = default_engine\<lparr>cache := [(''#old'', stale_entry)]\<rparr>"

text \<open>
  An LLM reply whose one suggestion declares the confidence 5, and a page on which the
  suggested selector resolves. \<open>json_parse\<close> gives what \<open>JSON.parse\<close> gives for the reply.
\<close>

definition llm_reply :: string where
  \<open>llm_reply = ''{"suggestions":[{"selector":"#go","confidence":5}]}''\<close>

definition llm_page :: world where
  "llm_page =
     \<lparr>locator_count = (\<lambda>sel. if sel = ''#go'' then Some 1 else Some 0),
      evaluate_testid = Inr [], evaluate_text = (\<lambda>n. Inr []), page_context = None,
      ollama_tags = Some True, ollama_generate = Inr llm_reply,
      json_parse = (\<lambda>s. if s = llm_reply
                          then Some (Some [\<lparr>item_selector = Some ''#go'', item_confidence = Some 5,
                                             item_reasoning = None\<rparr>])
                          else None)\<rparr>"

text \<open>The URL that the construction of an engine validates.\<close>

definition configured_url :: "HealingConfig \<Rightarrow> string" where
  "configured_url c = effective_url (url (ollama (mergeWithDefaults c)))"

section \<open>The retry handler retries flaky failures\<close>

lemma default_retry [simp]:
  "retry (mergeWithDefaults empty_config)
     = \<lparr>onTimeout = True, onFlakiness = True, maxRetries = 2, initialBackoff = 1000\<rparr>"
  by (simp add: mergeWithDefaults_def empty_config_def field_or_def nullish_def)

lemma retry_loop_called:
  "attempt \<le> m \<Longrightarrow> Called (nat attempt) \<in> set (snd (retry_loop c action m mb attempt b le))"
  by (subst retry_loop.simps) (auto split: sum.splits prod.splits)

lemma retry_loop_stop:
  "action (nat attempt) = Inl msg \<Longrightarrow> \<not> shouldRetry c msg attempt m \<Longrightarrow> attempt \<le> m \<Longrightarrow>
   retry_loop c action m mb attempt b le = (Inl msg, [Called (nat attempt)])"
  by (subst retry_loop.simps) simp

lemma shouldRetry_lt: "shouldRetry c msg attempt m \<Longrightarrow> attempt < m"
  by (auto simp: shouldRetry_def split: if_splits)

lemma retry_loop_next:
  "0 \<le> attempt \<Longrightarrow> nat attempt \<le> k \<Longrightarrow> action k = Inl msg \<Longrightarrow>
   Called (Suc k) \<in> set (snd (retry_loop c action m mb attempt b le))
     \<longleftrightarrow> Called k \<in> set (snd (retry_loop c action m mb attempt b le)) \<and> shouldRetry c msg (int k) m"
proof (induction c action m mb attempt b le rule: retry_loop.induct)
  case (1 c action m mb attempt b le)
  show ?case
  proof (cases "attempt \<le> m")
    case False
    then show ?thesis by (subst (1 2) retry_loop.simps) simp
  next
    case le: True
    show ?thesis
    proof (cases "action (nat attempt)")
      case (Inr v)
      then show ?thesis using le "1.prems"
        by (subst (1 2) retry_loop.simps) auto
    next
      case (Inl message)
      show ?thesis
      proof (cases "shouldRetry c message attempt m")
        case False
        then show ?thesis using le Inl "1.prems"
          by (subst (1 2) retry_loop.simps) auto
      next
        case True
        then have lt: "attempt < m" by (rule shouldRetry_lt)
        let ?b' = "min (b * 2) mb"
        let ?rest = "snd (retry_loop c action m mb (attempt + 1) ?b' (Some message))"
        have unfold: "snd (retry_loop c action m mb attempt b le)
              = [Called (nat attempt), OnRetry (attempt + 1) message, Delayed b] @ ?rest"
          using le Inl True lt by (subst retry_loop.simps) (simp add: Let_def split: prod.splits)
        have n1: "nat (attempt + 1) = Suc (nat attempt)" using "1.prems"(1) by simp
        show ?thesis
        proof (cases "k = nat attempt")
          case keq: True
          then have msg: "message = msg" using Inl "1.prems"(3) by simp
          have "Called (nat (attempt + 1)) \<in> set ?rest"
            using retry_loop_called[of "attempt + 1" m] lt by simp
          then show ?thesis using unfold keq n1 True msg "1.prems"(1) by simp
        next
          case kne: False
          then have k: "nat (attempt + 1) \<le> k" using "1.prems"(2) n1 by simp
          have a0: "0 \<le> attempt + 1" using "1.prems"(1) by simp
          have eq: "(if attempt < m then min (b * 2) mb else b) = ?b'" using lt by simp
          have ih: "Called (Suc k) \<in> set ?rest \<longleftrightarrow> Called k \<in> set ?rest \<and> shouldRetry c msg (int k) m"
          proof -
            have nn: "\<not> \<not> shouldRetry c message attempt m" using True by simp
            show ?thesis using "1.IH"[OF le Inl nn refl refl a0 k "1.prems"(3)] eq by simp
          qed
          show ?thesis using unfold ih kne "1.prems"(2) by auto
        qed
      qed
    qed
  qed
qed


lemma withRetry_next:
  "action k = Inl msg \<Longrightarrow>
   Called (Suc k) \<in> set (snd (withRetry c action opts))
     \<longleftrightarrow> Called k \<in> set (snd (withRetry c action opts))
          \<and> shouldRetry c msg (int k) (nullish (opt_maxRetries opts) (maxRetries (retry c)))"
  using retry_loop_next[of 0 k action msg c] by (simp add: withRetry_def)

lemma withRetry_called_first:
  "0 \<le> nullish (opt_maxRetries opts) (maxRetries (retry c)) \<Longrightarrow>
   Called 0 \<in> set (snd (withRetry c action opts))"
  using retry_loop_called[of 0 "nullish (opt_maxRetries opts) (maxRetries (retry c))" c action]
  by (simp add: withRetry_def)

lemma shouldRetry_unfold:
  "shouldRetry c msg attempt m \<longleftrightarrow>
     attempt < m \<and> (onTimeout (retry c) \<and> matches_any msg timeoutPatterns
                     \<or> matches_any msg networkPatterns
                     \<or> onFlakiness (retry c) \<and> matches_any msg flakyPatterns)"
  by (auto simp: shouldRetry_def matches_any_def)

text \<open>
  C7, as the code has it. The flakiness patterns of the code are \<open>element is not visible\<close>,
  \<open>element is not attached\<close>, \<open>element is not stable\<close>, \<open>intercepts pointer events\<close> and
  \<open>not actionable\<close>. An error whose message contains one of them, case-insensitively, is
  retried whenever \<open>retry.onFlakiness\<close> is set and attempts remain. When the message matches
  no network pattern, and no timeout pattern unless \<open>retry.onTimeout\<close> is off, it is retried
  only then. Both are stated for the decision \<open>shouldRetry\<close> at every attempt, and for
  \<open>withRetry\<close> at every call of the action: when call number \<open>k\<close> throws the error, the
  action is called once more (call number \<open>k + 1\<close>) if call \<open>k\<close> was made, the flag is
  set and \<open>k\<close> is below the number of retries, and in the second case only then. The
  first call is made whenever the number of retries is not negative.
\<close>

theorem flakiness_retry:
  assumes "matches_any msg flakyPatterns"
    and "action k = Inl msg"
    and "m = nullish (opt_maxRetries opts) (maxRetries (retry c))"
  shows "(onFlakiness (retry c) \<and> attempt < m \<longrightarrow> shouldRetry c msg attempt m)
       \<and> (0 \<le> m \<longrightarrow> Called 0 \<in> set (snd (withRetry c action opts)))
       \<and> (Called k \<in> set (snd (withRetry c action opts)) \<and> onFlakiness (retry c) \<and> int k < m
            \<longrightarrow> Called (Suc k) \<in> set (snd (withRetry c action opts)))
       \<and> (\<not> (onTimeout (retry c) \<and> matches_any msg timeoutPatterns) \<and> \<not> matches_any msg networkPatterns
            \<longrightarrow> (shouldRetry c msg attempt m \<longleftrightarrow> onFlakiness (retry c) \<and> attempt < m)
              \<and> (Called (Suc k) \<in> set (snd (withRetry c action opts))
                   \<longleftrightarrow> Called k \<in> set (snd (withRetry c action opts))
                        \<and> onFlakiness (retry c) \<and> int k < m))"
  using assms withRetry_next[of action k msg c opts] withRetry_called_first[of opts c action]
  by (auto simp: shouldRetry_unfold)

theorem flakiness_retry_witness:
  "matches_any ''Element is not visible'' flakyPatterns
   \<and> \<not> matches_any ''Element is not visible'' timeoutPatterns
   \<and> \<not> matches_any ''Element is not visible'' networkPatterns
   \<and> onFlakiness (retry (mergeWithDefaults empty_config))
   \<and> Called 0 \<in> set (snd (withRetry (mergeWithDefaults empty_config)
                              (always_throws ''Element is not visible'') no_retry_options))
   \<and> Called 1 \<in> set (snd (withRetry (mergeWithDefaults empty_config)
                              (always_throws ''Element is not visible'') no_retry_options))
   \<and> Called 2 \<in> set (snd (withRetry (mergeWithDefaults empty_config)
                              (always_throws ''Element is not visible'') no_retry_options))
   \<and> Called 3 \<notin> set (snd (withRetry (mergeWithDefaults empty_config)
                              (always_throws ''Element is not visible'') no_retry_options))"
proof -
  let ?msg = "''Element is not visible''"
  let ?tr = "set (snd (withRetry (mergeWithDefaults empty_config) (always_throws ?msg) no_retry_options))"
  have f: "matches_any ?msg flakyPatterns" by code_simp
  have t: "\<not> matches_any ?msg timeoutPatterns" by code_simp
  have n: "\<not> matches_any ?msg networkPatterns" by code_simp
  have a: "always_throws ?msg k = Inl ?msg" for k by (simp add: always_throws_def)
  have m: "(2::int) = nullish (opt_maxRetries no_retry_options) (maxRetries (retry (mergeWithDefaults empty_config)))"
    by (simp add: no_retry_options_def nullish_def)
  have o: "onFlakiness (retry (mergeWithDefaults empty_config))" by simp
  note r = flakiness_retry[where msg="?msg" and action="always_throws ?msg"
        and c="mergeWithDefaults empty_config" and opts=no_retry_options and m=2 and attempt=0,
        OF f a m]
  have c0: "Called 0 \<in> ?tr" using r[of 0] by simp
  have c1: "Called 1 \<in> ?tr" using r[of 0] c0 o by simp
  have c2: "Called 2 \<in> ?tr" using r[of 1] c1 o by (simp add: numeral_2_eq_2)
  have c3: "Called 3 \<notin> ?tr" using r[of 2] t n by (simp add: numeral_3_eq_3 numeral_2_eq_2)
  from f t n o c0 c1 c2 c3 show ?thesis by blast
qed

text \<open>
  The claim as the specification words it fails: the message \<open>button not visible\<close> contains
  \<open>not visible\<close>, \<open>retry.onFlakiness\<close> is set and two retries remain, and \<open>withRetry\<close>
  rethrows after the first call.
\<close>

theorem flakiness_patterns_counterexample:
  "matches_any ''button not visible'' [''not visible'']
   \<and> onFlakiness (retry (mergeWithDefaults empty_config))
   \<and> 0 < nullish (opt_maxRetries no_retry_options) (maxRetries (retry (mergeWithDefaults empty_config)))
   \<and> withRetry (mergeWithDefaults empty_config) (always_throws ''button not visible'') no_retry_options
       = (Inl ''button not visible'', [Called 0])"
proof -
  have p: "matches_any ''button not visible'' [''not visible'']" by code_simp
  have t: "\<not> matches_any ''button not visible'' timeoutPatterns" by code_simp
  have n: "\<not> matches_any ''button not visible'' networkPatterns" by code_simp
  have f: "\<not> matches_any ''button not visible'' flakyPatterns" by code_simp
  have s: "\<not> shouldRetry (mergeWithDefaults empty_config) ''button not visible'' 0 2"
    using t n f by (simp add: shouldRetry_unfold)
  have m: "nullish (opt_maxRetries no_retry_options) (maxRetries (retry (mergeWithDefaults empty_config))) = 2"
    by (simp add: no_retry_options_def nullish_def)
  have "withRetry (mergeWithDefaults empty_config) (always_throws ''button not visible'') no_retry_options
       = (Inl ''button not visible'', [Called 0])"
    unfolding withRetry_def Let_def m
    using retry_loop_stop[where attempt=0 and m=2 and action="always_throws ''button not visible''"
        and msg="''button not visible''" and c="mergeWithDefaults empty_config"] s
    by (simp add: always_throws_def)
  with p m show ?thesis by simp
qed

section \<open>The healing engine validates what it returns\<close>

lemma strategy_ok_with_event: "strategy_ok w p \<Longrightarrow> strategy_ok w (with_event ev p)"
  by (auto simp: strategy_ok_def with_event_def)

lemma strategy_ok_failure [simp]:
  "strategy_ok w (failure name b alts msg None, evs)"
  "strategy_ok w (failure name b alts msg (Some (AiResponse x y)), evs)"
  by (simp_all add: strategy_ok_def failure_def)

lemma testid_validate_ok: "strategy_ok w (testid_validate w b x cands remaining)"
proof (induction remaining)
  case Nil
  show ?case by (simp add: strategy_ok_def failure_def)
next
  case (Cons c cs)
  show ?case
  proof (cases "checkSelectorExists w (tc_selector c)")
    case True
    then show ?thesis by (simp add: strategy_ok_def with_event_def)
  next
    case False
    then show ?thesis using Cons.IH by (simp add: strategy_ok_with_event)
  qed
qed

lemma text_validate_ok: "strategy_ok w (text_validate w b x cands remaining)"
proof (induction remaining)
  case Nil
  show ?case by (simp add: strategy_ok_def failure_def)
next
  case (Cons c cs)
  show ?case
  proof (cases "checkSelectorExists w (xc_selector c)")
    case True
    then show ?thesis by (simp add: strategy_ok_def with_event_def)
  next
    case False
    then show ?thesis using Cons.IH by (simp add: strategy_ok_with_event)
  qed
qed

lemma ai_validate_ok: "strategy_ok w (ai_validate w b x cands remaining)"
proof (induction remaining)
  case Nil
  show ?case by (simp add: strategy_ok_def failure_def)
next
  case (Cons c cs)
  show ?case
  proof (cases "checkSelectorExists w (as_selector c)")
    case True
    then show ?thesis by (simp add: strategy_ok_def with_event_def)
  next
    case False
    then show ?thesis using Cons.IH by (simp add: strategy_ok_with_event)
  qed
qed

lemma css_validate_ok: "strategy_ok w (css_validate w b cands [] remaining)"
proof (induction remaining)
  case Nil
  show ?case by (simp add: strategy_ok_def failure_def)
next
  case (Cons c cs)
  show ?case
  proof (cases "checkSelectorExists w (cc_selector c)")
    case True
    then show ?thesis by (simp add: strategy_ok_def with_event_def css_success_def)
  next
    case False
    then show ?thesis using Cons.IH by (simp add: strategy_ok_with_event)
  qed
qed

lemma testid_heal_ok: "strategy_ok w (testid_heal w b opts)"
  by (simp add: testid_heal_def testid_validate_ok Let_def split: sum.splits)

lemma text_heal_ok: "strategy_ok w (text_heal w b opts)"
  by (simp add: text_heal_def text_validate_ok Let_def split: sum.splits)

lemma css_heal_ok: "strategy_ok w (css_heal w b)"
  by (simp add: css_heal_def css_validate_ok Let_def)

lemma ai_heal_ok: "strategy_ok w (ai_heal w b opts)"
  by (simp add: ai_heal_def ai_validate_ok Let_def split: sum.splits option.splits)

lemma strategy_heal_ok: "strategy_ok w (strategy_heal w name b opts)"
  by (cases name) (simp_all add: strategy_heal_def testid_heal_ok text_heal_ok css_heal_ok ai_heal_ok)

lemma try_strategies_ok:
  "failed_ok lastR \<Longrightarrow> hit_ok w (try_strategies w table b opts names lastR)"
proof (induction names arbitrary: lastR)
  case Nil
  then show ?case by (simp add: hit_ok_def)
next
  case (Cons name names)
  show ?case
  proof (cases "name \<in> set table")
    case False
    then show ?thesis using Cons by simp
  next
    case True
    obtain r evs where s: "strategy_heal w name b opts = (r, evs)" by (cases "strategy_heal w name b opts")
    have ok: "strategy_ok w (r, evs)" using strategy_heal_ok[of w name b opts] s by simp
    show ?thesis
    proof (cases "success r")
      case True
      then show ?thesis using \<open>name \<in> set table\<close> s ok by (simp add: hit_ok_def strategy_ok_def)
    next
      case False
      then have "failed_ok (Some r)" using ok by (simp add: failed_ok_def strategy_ok_def)
      from Cons.IH[OF this] show ?thesis using \<open>name \<in> set table\<close> s False
        by (auto simp: hit_ok_def split: prod.splits option.splits)
    qed
  qed
qed

lemma heal_attempts_ok:
  "failed_ok lastR \<Longrightarrow> hit_ok w (heal_attempts w table c b opts attempt lastR)"
proof (induction w table c b opts attempt lastR rule: heal_attempts.induct)
  case (1 w table c b opts attempt lastR)
  show ?case
  proof (cases "attempt < maxAttempts c")
    case False
    then show ?thesis using "1.prems" by (subst heal_attempts.simps) (simp add: hit_ok_def)
  next
    case True
    obtain hit lastR' evs where t: "try_strategies w table b opts (strategies c) lastR = (hit, lastR', evs)"
      by (cases "try_strategies w table b opts (strategies c) lastR")
    have ok: "hit_ok w (hit, lastR', evs)" using try_strategies_ok[OF "1.prems", of w table b opts "strategies c"] t by simp
    show ?thesis
    proof (cases hit)
      case (Some h)
      then show ?thesis using True t ok by (subst heal_attempts.simps) simp
    next
      case None
      then have f: "failed_ok lastR'" using ok by (simp add: hit_ok_def)
      have "hit_ok w (heal_attempts w table c b opts (attempt + 1) lastR')"
        using "1.IH"[OF True t[symmetric] None refl refl f] by simp
      then show ?thesis using True t None
        by (subst heal_attempts.simps) (auto simp: hit_ok_def Let_def split: prod.splits option.splits)
    qed
  qed
qed


lemma checkSelectorExists_count:
  "checkSelectorExists w s \<longleftrightarrow> (\<exists>n. locator_count w s = Some n \<and> 1 \<le> n)"
  by (auto simp: checkSelectorExists_def split: option.splits)

lemma cache_check_hit:
  assumes "cache_check w e sel = (Some r, e1, evs1)"
  shows "success r \<and> Probe (selector r) True \<in> set evs1 \<and> checkSelectorExists w (selector r)"
  using assms by (auto simp: cache_check_def Let_def split: if_splits option.splits)

lemma cache_check_miss:
  assumes "cache_check w e sel = (None, e1, evs1)"
  shows "engine_config e1 = engine_config e \<and> strategy_table e1 = strategy_table e
         \<and> flakinessTracker e1 = flakinessTracker e
         \<and> (\<forall>name. Invoke name \<notin> set evs1)"
  using assms by (auto simp: cache_check_def Let_def split: if_splits option.splits)

lemma cache_check_stale:
  assumes "cacheHealing (engine_config e)" and "map_of (cache e) sel = Some entry"
    and "\<not> checkSelectorExists w (healed entry)"
  shows "cache_check w e sel = (None, e\<lparr>cache := AList.delete sel (cache e)\<rparr>, [Probe (healed entry) False])"
  using assms by (simp add: cache_check_def Let_def)

lemma cache_check_absent:
  assumes "map_of (cache e) sel = None"
  shows "cache_check w e sel = (None, e, [])"
  using assms by (simp add: cache_check_def)

lemma cache_trackSuccess [simp]: "cache (trackSuccess s e) = cache e"
  by (simp add: trackSuccess_def Let_def)

lemma cache_trackFailure [simp]: "cache (trackFailure s e) = cache e"
  by (simp add: trackFailure_def Let_def)

text \<open>
  C2. Whenever \<open>heal\<close> returns a result with \<open>success = true\<close>, the events of that call
  contain a driver probe of the returned selector that found it, and the driver's count for
  that selector is at least 1. This covers the cache hit, the selector that already
  resolves and the success of every strategy.
\<close>

theorem heal_success_validated:
  assumes "heal w now e sel opts = (r, e', evs)" and "success r"
  shows "Probe (selector r) True \<in> set evs \<and> (\<exists>n. locator_count w (selector r) = Some n \<and> 1 \<le> n)"
proof -
  have en: "enabled (engine_config e)" using assms by (auto simp: heal_def split: if_splits)
  obtain c e1 evs1 where cc: "cache_check w e sel = (c, e1, evs1)" by (cases "cache_check w e sel")
  have goal: "Probe (selector r) True \<in> set evs \<and> checkSelectorExists w (selector r)"
  proof (cases c)
    case (Some cr)
    then have "r = cr" "evs = evs1" using assms(1) en cc by (simp_all add: heal_def)
    then show ?thesis using cache_check_hit[of w e sel cr e1 evs1] cc Some by simp
  next
    case None
    show ?thesis
    proof (cases "checkSelectorExists w sel")
      case True
      then show ?thesis using assms(1) en cc None by (auto simp: heal_def Let_def)
    next
      case False
      obtain hit lastR evs2 where ha:
        "heal_attempts w (strategy_table e1) (engine_config e1) sel opts 0 None = (hit, lastR, evs2)"
        by (cases "heal_attempts w (strategy_table e1) (engine_config e1) sel opts 0 None")
      have ok: "hit_ok w (hit, lastR, evs2)"
        using heal_attempts_ok[of None w "strategy_table e1" "engine_config e1" sel opts 0] ha
        by (simp add: failed_ok_def)
      show ?thesis
      proof (cases hit)
        case (Some h)
        obtain name hr where h: "h = (name, hr)" by (cases h)
        have "r = hr" "evs = evs1 @ [Probe sel False] @ evs2"
          using assms(1) en cc None False ha Some h by (simp_all add: heal_def Let_def)
        then show ?thesis using ok Some h by (simp add: hit_ok_def)
      next
        case nohit: None
        have "\<not> success r"
          using assms(1) en cc None False ha nohit ok
          by (auto simp: heal_def Let_def hit_ok_def failed_ok_def split: option.splits)
        then show ?thesis using assms(2) by simp
      qed
    qed
  qed
  then show ?thesis by (simp add: checkSelectorExists_count)
qed

text \<open>
  C3. When \<open>heal\<close> (enabled, with caching on) finds a cache entry for the broken selector
  whose healed selector fails the presence probe, the call probes that selector, and in the
  engine it leaves behind the broken selector has no entry with that stale healed selector:
  it has no entry at all, or the fresh entry (use count 1) of a strategy success of this
  call, whose healed selector resolves.
\<close>

theorem stale_cache_entry_evicted:
  assumes "enabled (engine_config e)" and "cacheHealing (engine_config e)"
    and "map_of (cache e) sel = Some entry"
    and "\<not> checkSelectorExists w (healed entry)"
    and "heal w now e sel opts = (r, e', evs)"
  shows "Probe (healed entry) False \<in> set evs
       \<and> (\<forall>x. map_of (cache e') sel = Some x \<longrightarrow>
              healed x \<noteq> healed entry \<and> checkSelectorExists w (healed x) \<and> useCount x = 1)"
proof -
  let ?e1 = "e\<lparr>cache := AList.delete sel (cache e)\<rparr>"
  have cc: "cache_check w e sel = (None, ?e1, [Probe (healed entry) False])"
    using cache_check_stale[OF assms(2,3,4)] .
  have gone: "map_of (cache ?e1) sel = None" by (simp add: delete_conv)
  show ?thesis
  proof (cases "checkSelectorExists w sel")
    case True
    then have "e' = trackSuccess sel ?e1" "evs = [Probe (healed entry) False] @ [Probe sel True]"
      using assms(1,5) cc by (simp_all add: heal_def Let_def)
    then show ?thesis using gone by simp
  next
    case False
    obtain hit lastR evs2 where ha:
      "heal_attempts w (strategy_table ?e1) (engine_config ?e1) sel opts 0 None = (hit, lastR, evs2)"
      by (cases "heal_attempts w (strategy_table ?e1) (engine_config ?e1) sel opts 0 None")
    have ok: "hit_ok w (hit, lastR, evs2)"
      using heal_attempts_ok[of None w "strategy_table ?e1" "engine_config ?e1" sel opts 0] ha
      by (simp add: failed_ok_def)
    show ?thesis
    proof (cases hit)
      case None
      then have "e' = trackFailure sel ?e1" "evs = [Probe (healed entry) False] @ [Probe sel False] @ evs2"
        using assms(1,5) cc False ha by (simp_all add: heal_def Let_def)
      then show ?thesis using gone by simp
    next
      case (Some h)
      obtain name hr where h: "h = (name, hr)" by (cases h)
      have hr: "checkSelectorExists w (selector hr)" using ok Some h by (simp add: hit_ok_def)
      have e': "e' = trackSuccess (selector hr)
                  (?e1\<lparr>cache := AList.update sel
                      \<lparr>original = sel, healed = selector hr, entry_confidence = confidence hr,
                       entry_strategy = name, timestamp = now, useCount = 1\<rparr> (cache ?e1)\<rparr>)
                \<and> evs = [Probe (healed entry) False] @ [Probe sel False] @ evs2"
        using assms(1,2,5) cc False ha Some h by (auto simp: heal_def Let_def)
      show ?thesis using e' hr assms(4) by (auto simp: update_conv)
    qed
  qed
qed

text \<open>
  C4. For an enabled engine, a selector for which the driver reports a count of at least 1
  and which has no cache entry: \<open>heal\<close> returns success with the original selector,
  confidence 1.0 and the metadata \<open>noHealingNeeded\<close>, invokes no strategy, and leaves the
  cache as it was.
\<close>

theorem already_resolving_selector:
  assumes "enabled (engine_config e)" and "locator_count w sel = Some n" and "1 \<le> n"
    and "map_of (cache e) sel = None"
  shows "fst (heal w now e sel opts) =
           \<lparr>success = True, selector = sel, confidence = 1, strategy = DataTestidRecovery,
            alternatives = [], error = None, metadata = Some NoHealingNeeded\<rparr>
       \<and> (\<forall>name. Invoke name \<notin> set (snd (snd (heal w now e sel opts))))
       \<and> cache (fst (snd (heal w now e sel opts))) = cache e"
proof -
  have "checkSelectorExists w sel" using assms(2,3) by (simp add: checkSelectorExists_def)
  then have "heal w now e sel opts =
     (\<lparr>success = True, selector = sel, confidence = 1, strategy = DataTestidRecovery,
       alternatives = [], error = None, metadata = Some NoHealingNeeded\<rparr>,
      trackSuccess sel e, [Probe sel True])"
    using assms(1) cache_check_absent[OF assms(4), of w] by (simp add: heal_def Let_def)
  then show ?thesis by simp
qed

lemma flaky_stats_clearCache: "getFlakinessStats (clearCache e) = getFlakinessStats e"
  by (simp add: getFlakinessStats_def clearCache_def)

lemma heal_not_cached:
  assumes "map_of (cache e) sel = None"
  shows "metadata (fst (heal w now e sel opts)) \<noteq> Some (Cached n)"
proof (cases "enabled (engine_config e)")
  case False
  then show ?thesis by (simp add: heal_def)
next
  case True
  note cc = cache_check_absent[OF assms, of w]
  show ?thesis
  proof (cases "checkSelectorExists w sel")
    case True
    then show ?thesis using \<open>enabled (engine_config e)\<close> cc by (simp add: heal_def Let_def)
  next
    case False
    obtain hit lastR evs2 where ha:
      "heal_attempts w (strategy_table e) (engine_config e) sel opts 0 None = (hit, lastR, evs2)"
      by (cases "heal_attempts w (strategy_table e) (engine_config e) sel opts 0 None")
    have ok: "hit_ok w (hit, lastR, evs2)"
      using heal_attempts_ok[of None w "strategy_table e" "engine_config e" sel opts 0] ha
      by (simp add: failed_ok_def)
    show ?thesis using True cc False ha ok
      by (auto simp: heal_def Let_def hit_ok_def failed_ok_def split: option.splits)
  qed
qed

text \<open>
  C8, as the code has it. \<open>clearCache\<close> empties the healing cache, so that the next \<open>heal\<close>
  for any selector reports no cache hit, and changes nothing else: the flakiness tracker,
  the configuration and the strategy table are as they were, and \<open>getFlakinessStats\<close>
  returns after \<open>clearCache\<close> what it returned before.
\<close>

theorem clearCache_clears_cache_only:
  "cache (clearCache e) = []
   \<and> flakinessTracker (clearCache e) = flakinessTracker e
   \<and> engine_config (clearCache e) = engine_config e
   \<and> strategy_table (clearCache e) = strategy_table e
   \<and> getFlakinessStats (clearCache e) = getFlakinessStats e
   \<and> (\<forall>n. metadata (fst (heal w now (clearCache e) sel opts)) \<noteq> Some (Cached n))"
  using heal_not_cached[of "clearCache e" sel w now opts]
  by (simp add: flaky_stats_clearCache) (simp add: clearCache_def)

section \<open>Concrete calls of the engine\<close>

lemma default_config:
  "mergeWithDefaults empty_config =
     \<lparr>enabled = True,
      strategies = [DataTestidRecovery, TextContentMatching, CssHierarchyAnalysis, AiPoweredAnalysis],
      maxAttempts = 3, cacheHealing = True,
      ollama = \<lparr>url = ''http://localhost:11434'', ollama_model = ''qwen2.5-coder:3b'',
                 ollama_timeout = 30000\<rparr>,
      retry = \<lparr>onTimeout = True, onFlakiness = True, maxRetries = 2, initialBackoff = 1000\<rparr>,
      telemetry = \<lparr>telemetry_enabled = True, logLevel = Info\<rparr>\<rparr>"
  by (simp add: mergeWithDefaults_def empty_config_def field_or_def nullish_def)

lemma default_engine_facts:
  "enabled (engine_config default_engine)"
  "cacheHealing (engine_config default_engine)"
  "strategies (engine_config default_engine)
           = [DataTestidRecovery, TextContentMatching, CssHierarchyAnalysis, AiPoweredAnalysis]"
  "0 < maxAttempts (engine_config default_engine)"
  "CssHierarchyAnalysis \<in> set (strategy_table default_engine)"
  "AiPoweredAnalysis \<in> set (strategy_table default_engine)"
  "map_of (cache default_engine) sel = None"
  by (simp_all add: default_engine_def default_config)

lemma css_broken_testid: "extractTestId css_broken = None" by code_simp
lemma css_broken_text: "extractTextContent css_broken = None" by code_simp
lemma css_broken_alternatives:
  "generateAlternatives (analyzeSelector css_broken) = css_broken_candidates"
  by code_simp

lemma css_broken_testid_heal:
  "testid_heal w css_broken opts =
     (failure DataTestidRecovery css_broken [] ''No test ID pattern found in selector'' None, [])"
  by (simp add: testid_heal_def css_broken_testid truthy_def)

lemma css_broken_text_heal:
  "text_heal w css_broken opts =
     (failure TextContentMatching css_broken [] ''No text pattern found in selector'' None, [])"
  by (simp add: text_heal_def css_broken_text truthy_def)

lemma css_validate_first:
  assumes "list_all (\<lambda>c. \<not> checkSelectorExists w (cc_selector c)) pre"
    and "checkSelectorExists w (cc_selector c)"
  shows "css_validate w b cands [] (pre @ c # post) =
     (css_success b c (map cc_selector (filter (\<lambda>d. cc_selector d \<noteq> cc_selector c) cands)),
      map (\<lambda>c. Probe (cc_selector c) False) pre @ [Probe (cc_selector c) True])"
  using assms by (induction pre) (simp_all add: with_event_def)

lemma css_broken_split:
  "css_broken_candidates =
     filter (\<lambda>c. cc_confidence c > 0.5) css_broken_candidates
       @ alt ''button'' 0.5 ''last-element-only''
       # [alt ''div#app > main.content > section:nth-child(3) >'' 0.45 ''parent-element'']"
  by (simp add: css_broken_candidates_def alt_def)

lemma css_broken_css_heal:
  assumes "list_all (\<lambda>c. \<not> checkSelectorExists w (cc_selector c))
             (filter (\<lambda>c. cc_confidence c > 0.5) css_broken_candidates)"
    and "checkSelectorExists w ''button''"
  shows "css_heal w css_broken =
     (button_result,
      map (\<lambda>c. Probe (cc_selector c) False) (filter (\<lambda>c. cc_confidence c > 0.5) css_broken_candidates)
        @ [Probe ''button'' True])"
proof -
  have b: "checkSelectorExists w (cc_selector (alt ''button'' 0.5 ''last-element-only''))"
    using assms(2) by (simp add: alt_def)
  have "css_validate w css_broken css_broken_candidates []
          (filter (\<lambda>c. cc_confidence c > 0.5) css_broken_candidates
             @ alt ''button'' 0.5 ''last-element-only''
             # [alt ''div#app > main.content > section:nth-child(3) >'' 0.45 ''parent-element''])
        = (button_result,
           map (\<lambda>c. Probe (cc_selector c) False) (filter (\<lambda>c. cc_confidence c > 0.5) css_broken_candidates)
             @ [Probe ''button'' True])"
    unfolding css_validate_first[OF assms(1) b]
    by (simp add: button_result_def css_success_def alt_def)
  then show ?thesis
    unfolding css_heal_def css_broken_alternatives Let_def
    using css_broken_split by simp
qed

lemma try_strategies_css_broken:
  assumes "CssHierarchyAnalysis \<in> set table"
    and "list_all (\<lambda>c. \<not> checkSelectorExists w (cc_selector c))
             (filter (\<lambda>c. cc_confidence c > 0.5) css_broken_candidates)"
    and "checkSelectorExists w ''button''"
  shows "fst (try_strategies w table css_broken opts
            [DataTestidRecovery, TextContentMatching, CssHierarchyAnalysis, AiPoweredAnalysis] lastR)
         = Some (CssHierarchyAnalysis, button_result)"
  using assms(1)
  by (simp add: strategy_heal_def css_broken_testid_heal css_broken_text_heal
        css_broken_css_heal[OF assms(2,3)] failure_def button_result_def split: prod.splits)

lemma heal_css_broken:
  assumes "enabled (engine_config e)"
    and "strategies (engine_config e)
           = [DataTestidRecovery, TextContentMatching, CssHierarchyAnalysis, AiPoweredAnalysis]"
    and "0 < maxAttempts (engine_config e)"
    and "CssHierarchyAnalysis \<in> set (strategy_table e)"
    and "map_of (cache e) css_broken = None"
    and "\<not> checkSelectorExists w css_broken"
    and "list_all (\<lambda>c. \<not> checkSelectorExists w (cc_selector c))
             (filter (\<lambda>c. cc_confidence c > 0.5) css_broken_candidates)"
    and "checkSelectorExists w ''button''"
  shows "fst (heal w now e css_broken opts) = button_result"
proof -
  obtain lastR evs where t: "try_strategies w (strategy_table e) css_broken opts
            [DataTestidRecovery, TextContentMatching, CssHierarchyAnalysis, AiPoweredAnalysis] None
         = (Some (CssHierarchyAnalysis, button_result), lastR, evs)"
    using try_strategies_css_broken[OF assms(4,7,8), of opts None]
    by (cases "try_strategies w (strategy_table e) css_broken opts
            [DataTestidRecovery, TextContentMatching, CssHierarchyAnalysis, AiPoweredAnalysis] None") auto
  have "heal_attempts w (strategy_table e) (engine_config e) css_broken opts 0 None
          = (Some (CssHierarchyAnalysis, button_result), lastR, evs)"
    using assms(2,3) t by (subst heal_attempts.simps) simp
  then show ?thesis
    using assms(1,6) cache_check_absent[OF assms(5), of w]
    by (simp add: heal_def Let_def)
qed

lemma button_page_facts:
  "\<not> checkSelectorExists button_page css_broken"
  "list_all (\<lambda>c. \<not> checkSelectorExists button_page (cc_selector c))
             (filter (\<lambda>c. cc_confidence c > 0.5) css_broken_candidates)"
  "checkSelectorExists button_page ''button''"
  "checkSelectorExists button_page ''button.submit-btn''"
  "checkSelectorExists button_page ''.submit-btn''"
  by (simp_all add: button_page_def checkSelectorExists_def css_broken_def css_broken_candidates_def alt_def)

lemma heal_button_page:
  "fst (heal button_page 0 default_engine css_broken no_options) = button_result"
  using heal_css_broken[OF default_engine_facts(1,3,4,5,7) button_page_facts(1,2,3)] .

theorem heal_success_validated_witness:
  "success (fst (heal button_page 0 default_engine css_broken no_options))
   \<and> Probe ''button'' True \<in> set (snd (snd (heal button_page 0 default_engine css_broken no_options)))
   \<and> (\<exists>n. locator_count button_page ''button'' = Some n \<and> 1 \<le> n)"
proof -
  let ?h = "heal button_page 0 default_engine css_broken no_options"
  have h: "?h = (button_result, fst (snd ?h), snd (snd ?h))"
    using heal_button_page by (metis prod.collapse)
  have s: "success button_result" by (simp add: button_result_def)
  from heal_success_validated[OF h s] show ?thesis
    by (simp add: heal_button_page button_result_def)
qed

lemma stale_engine_facts:
  "enabled (engine_config stale_engine)"
  "cacheHealing (engine_config stale_engine)"
  "map_of (cache stale_engine) ''#old'' = Some stale_entry"
  "\<not> checkSelectorExists dead_world (healed stale_entry)"
  by (simp_all add: stale_engine_def default_engine_def default_config stale_entry_def
        dead_world_def checkSelectorExists_def)

theorem stale_cache_entry_evicted_witness:
  "Probe ''#gone'' False \<in> set (snd (snd (heal dead_world 0 stale_engine ''#old'' no_options)))
   \<and> map_of (cache (fst (snd (heal dead_world 0 stale_engine ''#old'' no_options)))) ''#old'' = None"
proof -
  let ?h = "heal dead_world 0 stale_engine ''#old'' no_options"
  have h: "?h = (fst ?h, fst (snd ?h), snd (snd ?h))" by simp
  have d: "\<And>s. \<not> checkSelectorExists dead_world s"
    by (simp add: dead_world_def checkSelectorExists_def)
  from stale_cache_entry_evicted[OF stale_engine_facts h] d show ?thesis
    by (cases "map_of (cache (fst (snd ?h))) ''#old''") (auto simp: stale_entry_def)
qed

theorem already_resolving_selector_witness:
  "fst (heal button_page 0 default_engine ''button'' no_options) =
           \<lparr>success = True, selector = ''button'', confidence = 1, strategy = DataTestidRecovery,
            alternatives = [], error = None, metadata = Some NoHealingNeeded\<rparr>
   \<and> (\<forall>name. Invoke name \<notin> set (snd (snd (heal button_page 0 default_engine ''button'' no_options))))
   \<and> cache (fst (snd (heal button_page 0 default_engine ''button'' no_options))) = []"
proof -
  have l: "locator_count button_page ''button'' = Some 1" by (simp add: button_page_def)
  have c: "cache default_engine = []" by (simp add: default_engine_def)
  from already_resolving_selector[OF default_engine_facts(1) l _ default_engine_facts(7),
      of 0 no_options] c
  show ?thesis by simp
qed

theorem clearCache_clears_cache_only_witness:
  "cache (trackFailure ''#old'' stale_engine) \<noteq> []
   \<and> cache (clearCache (trackFailure ''#old'' stale_engine)) = []
   \<and> flakinessTracker (clearCache (trackFailure ''#old'' stale_engine))
        = [(''#old'', \<lparr>successes = 0, failures = 1\<rparr>)]
   \<and> metadata (fst (heal dead_world 0 (clearCache (trackFailure ''#old'' stale_engine)) ''#old''
                       no_options)) \<noteq> Some (Cached 2)"
  using clearCache_clears_cache_only[of "trackFailure ''#old'' stale_engine" dead_world 0 "''#old''"
      no_options]
  by (simp add: stale_engine_def default_engine_def trackFailure_def)

lemma try_strategies_none:
  assumes "\<And>name. \<not> success (fst (strategy_heal w name b opts))"
  shows "fst (try_strategies w table b opts names lastR) = None"
proof (induction names arbitrary: lastR)
  case Nil
  show ?case by simp
next
  case (Cons name names)
  obtain r evs where s: "strategy_heal w name b opts = (r, evs)" by (cases "strategy_heal w name b opts")
  then have f: "\<not> success r" using assms[of name] by simp
  show ?case using Cons.IH[of "Some r"] Cons.IH[of lastR] s f by (auto split: prod.splits)
qed

lemma heal_attempts_none:
  "(\<And>name. \<not> success (fst (strategy_heal w name b opts))) \<Longrightarrow>
   fst (heal_attempts w table c b opts attempt lastR) = None"
proof (induction w table c b opts attempt lastR rule: heal_attempts.induct)
  case (1 w table c b opts attempt lastR)
  show ?case
  proof (cases "attempt < maxAttempts c")
    case False
    then show ?thesis by (subst heal_attempts.simps) simp
  next
    case True
    obtain hit lastR' evs where t: "try_strategies w table b opts (strategies c) lastR = (hit, lastR', evs)"
      by (cases "try_strategies w table b opts (strategies c) lastR")
    then have n: "hit = None" using try_strategies_none[where table=table and names="strategies c" and lastR=lastR, OF "1.prems"] by simp
    have "fst (heal_attempts w table c b opts (attempt + 1) lastR') = None"
      using "1.IH"[OF True t[symmetric] n refl refl "1.prems"] by simp
    then show ?thesis using True t n
      by (subst heal_attempts.simps) (auto simp: Let_def split: prod.splits)
  qed
qed

lemma heal_all_fail:
  assumes "enabled (engine_config e)" and "map_of (cache e) sel = None"
    and "\<And>s. \<not> checkSelectorExists w s"
  shows "fst (snd (heal w now e sel opts)) = trackFailure sel e"
proof -
  have "\<not> success (fst (strategy_heal w name sel opts))" for name
    using strategy_heal_ok[of w name sel opts] assms(3) by (auto simp: strategy_ok_def)
  then have "fst (heal_attempts w (strategy_table e) (engine_config e) sel opts 0 None) = None"
    by (rule heal_attempts_none)
  then show ?thesis
    using assms cache_check_absent[OF assms(2), of w]
    by (cases "heal_attempts w (strategy_table e) (engine_config e) sel opts 0 None")
       (simp add: heal_def Let_def)
qed

text \<open>
  The claim as the specification words it fails: after a \<open>heal\<close> that failed for \<open>#old\<close>,
  \<open>clearCache\<close> leaves the failure in the tracker, and \<open>getFlakinessStats\<close> still lists
  the selector.
\<close>

theorem clearCache_keeps_flakiness_counterexample:
  "getFlakinessStats (clearCache (fst (snd (heal dead_world 0 default_engine ''#old'' no_options))))
     = [\<lparr>fs_selector = ''#old'', fs_successes = 0, fs_failures = 1, flakinessScore = 1\<rparr>]
   \<and> getFlakinessStats (clearCache (fst (snd (heal dead_world 0 default_engine ''#old'' no_options)))) \<noteq> []"
proof -
  have d: "\<And>s. \<not> checkSelectorExists dead_world s"
    by (simp add: dead_world_def checkSelectorExists_def)
  have "fst (snd (heal dead_world 0 default_engine ''#old'' no_options)) = trackFailure ''#old'' default_engine"
    using heal_all_fail[OF default_engine_facts(1,7) d] .
  then show ?thesis
    by (simp add: getFlakinessStats_def clearCache_def trackFailure_def default_engine_def sort_desc_def Let_def)
qed

section \<open>The CSS scenario\<close>

lemma css_validate_selector:
  "selector (fst (css_validate w b cands [] remaining)) = b
   \<or> selector (fst (css_validate w b cands [] remaining)) \<in> cc_selector ` set remaining"
proof (induction remaining)
  case Nil
  show ?case by (simp add: failure_def)
next
  case (Cons c cs)
  then show ?case by (auto simp: with_event_def css_success_def Let_def)
qed

lemma css_broken_never_submit_btn:
  "selector (fst (css_heal w css_broken)) \<notin> {''button.submit-btn'', ''.submit-btn''}"
proof -
  have "selector (fst (css_heal w css_broken)) = css_broken
        \<or> selector (fst (css_heal w css_broken)) \<in> cc_selector ` set css_broken_candidates"
    using css_validate_selector[of w css_broken css_broken_candidates css_broken_candidates]
    by (simp add: css_heal_def css_broken_alternatives)
  then show ?thesis
    by (auto simp: css_broken_def css_broken_candidates_def alt_def)
qed

text \<open>
  C6, as the code has it. The alternatives of the broken selector
  \<open>div#app > main.content > section:nth-child(3) > button#submit\<close> are the nine of
  \<open>css_broken_candidates\<close>, all built from the text of the selector; \<open>button.submit-btn\<close>
  and \<open>.submit-btn\<close> are not among them, and on no page does the CSS strategy return
  either. On a page where the broken selector and its alternatives of confidence above 0.5
  do not resolve and \<open>button\<close> does, an enabled engine with the default strategy order
  heals through the CSS strategy with the transform \<open>last-element-only\<close>, and returns
  \<open>button\<close> with confidence 0.5.
\<close>

theorem css_simplify_scenario:
  assumes "enabled (engine_config e)"
    and "strategies (engine_config e)
           = [DataTestidRecovery, TextContentMatching, CssHierarchyAnalysis, AiPoweredAnalysis]"
    and "0 < maxAttempts (engine_config e)"
    and "CssHierarchyAnalysis \<in> set (strategy_table e)"
    and "map_of (cache e) css_broken = None"
    and "\<not> checkSelectorExists w css_broken"
    and "list_all (\<lambda>c. \<not> checkSelectorExists w (cc_selector c))
             (filter (\<lambda>c. cc_confidence c > 0.5) css_broken_candidates)"
    and "checkSelectorExists w ''button''"
  shows "fst (heal w now e css_broken opts) = button_result
       \<and> generateAlternatives (analyzeSelector css_broken) = css_broken_candidates
       \<and> selector (fst (css_heal w' css_broken)) \<notin> {''button.submit-btn'', ''.submit-btn''}"
  using heal_css_broken[OF assms] css_broken_alternatives css_broken_never_submit_btn by simp

theorem css_simplify_scenario_witness:
  "fst (heal button_page 0 default_engine css_broken no_options) = button_result
   \<and> selector (fst (css_heal button_page css_broken)) \<notin> {''button.submit-btn'', ''.submit-btn''}"
  using css_simplify_scenario[OF default_engine_facts(1,3,4,5,7) button_page_facts(1,2,3),
      of 0 no_options button_page]
  by simp

text \<open>
  The claim as the specification words it fails on the page whose one element is
  \<open><button class="submit-btn">\<close>: the call succeeds through the CSS strategy, and the
  selector it returns is \<open>button\<close>.
\<close>

theorem css_simplify_counterexample:
  "\<not> checkSelectorExists button_page css_broken
   \<and> checkSelectorExists button_page ''button.submit-btn''
   \<and> checkSelectorExists button_page ''.submit-btn''
   \<and> success (fst (heal button_page 0 default_engine css_broken no_options))
   \<and> strategy (fst (heal button_page 0 default_engine css_broken no_options)) = CssHierarchyAnalysis
   \<and> metadata (fst (heal button_page 0 default_engine css_broken no_options))
        = Some (CssTransform css_broken ''last-element-only'')
   \<and> selector (fst (heal button_page 0 default_engine css_broken no_options)) = ''button''
   \<and> selector (fst (heal button_page 0 default_engine css_broken no_options))
        \<notin> {''button.submit-btn'', ''.submit-btn''}"
  using button_page_facts by (simp add: heal_button_page button_result_def)

section \<open>Confidence values\<close>

text \<open>
  The candidates of the TestID, text and CSS strategies have a confidence between 0 and 1:
  the Levenshtein distance of two strings is at most the length of the longer one, the
  bonus for the expected type is clamped, and the CSS confidences are constants. So has the
  result of each of these three strategies.
\<close>

lemma lev_cells_length:
  "length prev = Suc (length xs) \<Longrightarrow> length (lev_cells c xs prev left) = length xs"
proof (induction xs arbitrary: prev left)
  case Nil
  show ?case by simp
next
  case (Cons x xs)
  then obtain d u ps where p: "prev = d # u # ps" by (cases prev; cases "tl prev") auto
  with Cons show ?case by (simp add: Let_def)
qed

lemma lev_cells_diag:
  "length prev = Suc (length xs) \<Longrightarrow> k < length xs \<Longrightarrow> lev_cells c xs prev left ! k \<le> prev ! k + 1"
proof (induction xs arbitrary: prev left k)
  case Nil
  then show ?case by simp
next
  case (Cons x xs)
  then obtain d u ps where p: "prev = d # u # ps" by (cases prev; cases "tl prev") auto
  show ?case
  proof (cases k)
    case 0
    then show ?thesis using p by (simp add: Let_def)
  next
    case (Suc k')
    then have "lev_cells c xs (u # ps) v ! k' \<le> (u # ps) ! k' + 1" for v
      using Cons.IH[of "u # ps" k' v] Cons.prems p by simp
    then show ?thesis using p Suc by (simp add: Let_def)
  qed
qed

lemma lev_rows_bound:
  "length row = Suc (length s1) \<Longrightarrow> (\<forall>k < length row. row ! k \<le> max (i - 1) k) \<Longrightarrow> 0 < i \<Longrightarrow>
   length (lev_rows s2 s1 row i) = Suc (length s1)
   \<and> (\<forall>k \<le> length s1. lev_rows s2 s1 row i ! k \<le> max (i - 1 + length s2) k)"
proof (induction s2 arbitrary: row i)
  case Nil
  then show ?case by simp
next
  case (Cons c cs)
  let ?new = "i # lev_cells c s1 row i"
  have len: "length ?new = Suc (length s1)" using Cons.prems(1) by (simp add: lev_cells_length)
  have b: "\<forall>k < length ?new. ?new ! k \<le> max (Suc i - 1) k"
  proof (intro allI impI)
    fix k assume k: "k < length ?new"
    show "?new ! k \<le> max (Suc i - 1) k"
    proof (cases k)
      case 0
      then show ?thesis by simp
    next
      case (Suc k')
      then have k': "k' < length s1" using k len by simp
      have "lev_cells c s1 row i ! k' \<le> row ! k' + 1"
        using lev_cells_diag[OF Cons.prems(1) k'] .
      moreover have "row ! k' \<le> max (i - 1) k'" using Cons.prems(1,2) k' by simp
      ultimately show ?thesis using Suc Cons.prems(3) by simp
    qed
  qed
  from Cons.IH[OF len b] Cons.prems(3) show ?case by simp
qed

lemma lev_distance_le: "lev_distance s1 s2 \<le> max (length s1) (length s2)"
proof -
  let ?row = "[0 ..< Suc (length s1)]"
  have l: "length ?row = Suc (length s1)" by simp
  have b: "\<forall>k < length ?row. ?row ! k \<le> max (1 - 1) k"
  proof (intro allI impI)
    fix k assume "k < length ?row"
    then have "?row ! k = k" by (metis add_0 l length_upt nth_upt diff_zero)
    then show "?row ! k \<le> max (1 - 1) k" by simp
  qed
  have r: "length (lev_rows s2 s1 ?row 1) = Suc (length s1)
           \<and> (\<forall>k \<le> length s1. lev_rows s2 s1 ?row 1 ! k \<le> max (1 - 1 + length s2) k)"
    by (rule lev_rows_bound[OF l b]) simp
  then have len: "length (lev_rows s2 s1 ?row 1) = Suc (length s1)"
    and bd: "lev_rows s2 s1 ?row 1 ! length s1 \<le> max (length s2) (length s1)"
    by simp_all
  have "last (lev_rows s2 s1 ?row 1) = lev_rows s2 s1 ?row 1 ! length s1"
    using len by (metis diff_Suc_1 last_conv_nth length_0_conv nat.distinct(1))
  then show ?thesis using bd by (simp add: lev_distance_def max.commute)
qed

lemma ratio_bounds:
  fixes d m :: nat
  assumes "d \<le> m" and "0 < m"
  shows "0 \<le> 1 - real d / real m \<and> 1 - real d / real m \<le> 1"
proof -
  have "real d / real m \<le> 1" using assms by simp
  moreover have "0 \<le> real d / real m" by simp
  ultimately show ?thesis by linarith
qed

lemma calculateSimilarity_bounds: "0 \<le> calculateSimilarity a b \<and> calculateSimilarity a b \<le> 1"
proof (cases "toLowerCase a = toLowerCase b \<or> toLowerCase a = [] \<or> toLowerCase b = []")
  case True
  then show ?thesis by (auto simp: calculateSimilarity_def Let_def)
next
  case False
  then have m: "0 < max (length (toLowerCase a)) (length (toLowerCase b))"
    by (cases "toLowerCase a") auto
  from ratio_bounds[OF lev_distance_le m] False
  show ?thesis by (simp add: calculateSimilarity_def Let_def)
qed

lemma testid_score_bounds: "0 \<le> fst (testid_score a b) \<and> fst (testid_score a b) \<le> 1"
  using calculateSimilarity_bounds[of a b] by (simp add: testid_score_def)

lemma testid_element_bounds:
  assumes "c \<in> set (testid_element_candidates extracted expType el)"
  shows "0 \<le> tc_confidence c \<and> tc_confidence c \<le> 1"
proof -
  obtain conf mt where sc: "testid_score extracted (the (el_testId el)) = (conf, mt)"
    by (cases "testid_score extracted (the (el_testId el))")
  then have b: "0 \<le> conf \<and> conf \<le> 1"
    using testid_score_bounds[of extracted "the (el_testId el)"] by simp
  then have "tc_confidence c = conf \<or> tc_confidence c = min (conf + 0.1) 1"
    using assms sc
    by (auto simp: testid_element_candidates_def Let_def split: if_splits)
  with b show ?thesis by auto
qed

lemma testid_candidate_bounds:
  "c \<in> set (testid_findCandidates extracted els expType) \<Longrightarrow>
   0 \<le> tc_confidence c \<and> tc_confidence c \<le> 1"
  using testid_element_bounds by (auto simp: testid_findCandidates_def sort_desc_def)

lemma css_candidate_bounds:
  "c \<in> set (generateAlternatives a) \<Longrightarrow> 0 \<le> cc_confidence c \<and> cc_confidence c \<le> 1"
proof -
  have d: "set (dedupe_from key seen xs) \<subseteq> set xs" for key seen and xs :: "css_candidate list"
    by (induction xs arbitrary: seen) auto
  assume "c \<in> set (generateAlternatives a)"
  then have "c \<in> set (removed_ids a @ removed_nth_child a @ simplified_hierarchy a @ class_only a
             @ element_with_classes a @ direct_child a @ attribute_only a
             @ first_element_first_class a @ last_element_only a @ parent_element a)"
    using d[of cc_selector "[]"] unfolding generateAlternatives_def sort_desc_def
    by (simp only: set_sort) blast
  then show ?thesis
    by (auto simp: removed_ids_def removed_nth_child_def simplified_hierarchy_def class_only_def
          element_with_classes_def direct_child_def attribute_only_def first_element_first_class_def
          last_element_only_def parent_element_def alt_def Let_def split: if_splits)
qed


lemma text_lev_cells_length:
  "length prev = Suc (length xs) \<Longrightarrow> length (text_lev_cells c xs prev left) = length xs"
proof (induction xs arbitrary: prev left)
  case Nil
  show ?case by simp
next
  case (Cons x xs)
  then obtain d u ps where p: "prev = d # u # ps" by (cases prev; cases "tl prev") auto
  with Cons show ?case by (simp add: Let_def)
qed

lemma text_lev_cells_diag:
  "length prev = Suc (length xs) \<Longrightarrow> k < length xs \<Longrightarrow>
   text_lev_cells c xs prev left ! k \<le> prev ! k + 1"
proof (induction xs arbitrary: prev left k)
  case Nil
  then show ?case by simp
next
  case (Cons x xs)
  then obtain d u ps where p: "prev = d # u # ps" by (cases prev; cases "tl prev") auto
  show ?case
  proof (cases k)
    case 0
    then show ?thesis using p by (simp add: Let_def min_def)
  next
    case (Suc k')
    then have "text_lev_cells c xs (u # ps) v ! k' \<le> (u # ps) ! k' + 1" for v
      using Cons.IH[of "u # ps" k' v] Cons.prems p by simp
    then show ?thesis using p Suc by (simp add: Let_def)
  qed
qed

lemma text_lev_rows_bound:
  "length row = Suc (length s1) \<Longrightarrow> (\<forall>k < length row. row ! k \<le> max (i - 1) k) \<Longrightarrow> 0 < i \<Longrightarrow>
   length (text_lev_rows s2 s1 row i) = Suc (length s1)
   \<and> (\<forall>k \<le> length s1. text_lev_rows s2 s1 row i ! k \<le> max (i - 1 + length s2) k)"
proof (induction s2 arbitrary: row i)
  case Nil
  then show ?case by simp
next
  case (Cons c cs)
  let ?new = "i # text_lev_cells c s1 row i"
  have len: "length ?new = Suc (length s1)" using Cons.prems(1) by (simp add: text_lev_cells_length)
  have b: "\<forall>k < length ?new. ?new ! k \<le> max (Suc i - 1) k"
  proof (intro allI impI)
    fix k assume k: "k < length ?new"
    show "?new ! k \<le> max (Suc i - 1) k"
    proof (cases k)
      case 0
      then show ?thesis by simp
    next
      case (Suc k')
      then have k': "k' < length s1" using k len by simp
      have "text_lev_cells c s1 row i ! k' \<le> row ! k' + 1"
        using text_lev_cells_diag[OF Cons.prems(1) k'] .
      moreover have "row ! k' \<le> max (i - 1) k'" using Cons.prems(1,2) k' by simp
      ultimately show ?thesis using Suc Cons.prems(3) by simp
    qed
  qed
  from Cons.IH[OF len b] Cons.prems(3) show ?case by simp
qed

lemma levenshteinSimilarity_bounds:
  "0 \<le> levenshteinSimilarity s1 s2 \<and> levenshteinSimilarity s1 s2 \<le> 1"
proof (cases "length s1 = 0 \<or> length s2 = 0")
  case True
  then show ?thesis by (auto simp: levenshteinSimilarity_def)
next
  case False
  let ?row = "[0 ..< Suc (length s1)]"
  have l: "length ?row = Suc (length s1)" by simp
  have b: "\<forall>k < length ?row. ?row ! k \<le> max (1 - 1) k"
  proof (intro allI impI)
    fix k assume "k < length ?row"
    then have "?row ! k = k" by (metis add_0 l length_upt nth_upt diff_zero)
    then show "?row ! k \<le> max (1 - 1) k" by simp
  qed
  have r: "length (text_lev_rows s2 s1 ?row 1) = Suc (length s1)
           \<and> (\<forall>k \<le> length s1. text_lev_rows s2 s1 ?row 1 ! k \<le> max (1 - 1 + length s2) k)"
    by (rule text_lev_rows_bound[OF l b]) simp
  then have len: "length (text_lev_rows s2 s1 ?row 1) = Suc (length s1)"
    and bd: "text_lev_rows s2 s1 ?row 1 ! length s1 \<le> max (length s2) (length s1)"
    by simp_all
  have "last (text_lev_rows s2 s1 ?row 1) = text_lev_rows s2 s1 ?row 1 ! length s1"
    using len by (metis diff_Suc_1 last_conv_nth length_0_conv nat.distinct(1))
  then have d: "last (text_lev_rows s2 s1 ?row 1) \<le> max (length s1) (length s2)"
    using bd by (simp add: max.commute)
  have m: "0 < max (length s1) (length s2)" using False by (simp add: less_max_iff_disj)
  from ratio_bounds[OF d m] False show ?thesis by (simp add: levenshteinSimilarity_def)
qed

lemma wordOverlapSimilarity_bounds:
  "0 \<le> wordOverlapSimilarity t1 t2 \<and> wordOverlapSimilarity t1 t2 \<le> 1"
proof -
  let ?w1 = "filter (\<lambda>w. length w > 2) (split_ws t1)"
  let ?w2 = "filter (\<lambda>w. length w > 2) (split_ws t2)"
  have "length (filter (\<lambda>word. word \<in> set ?w2) (remdups ?w1)) \<le> length (remdups ?w1)"
    by (rule length_filter_le)
  also have "\<dots> \<le> length ?w1" by (rule length_remdups_leq)
  finally have o: "length (filter (\<lambda>word. word \<in> set ?w2) (remdups ?w1))
                     \<le> max (length ?w1) (length ?w2)" by simp
  show ?thesis
  proof (cases "length ?w1 = 0 \<or> length ?w2 = 0")
    case True
    then show ?thesis by (auto simp: wordOverlapSimilarity_def Let_def)
  next
    case False
    then have m: "0 < max (length ?w1) (length ?w2)" by (simp add: less_max_iff_disj)
    have "real (length (filter (\<lambda>word. word \<in> set ?w2) (remdups ?w1)))
            / real (max (length ?w1) (length ?w2)) \<le> 1"
      using o m by simp
    then show ?thesis using False by (simp add: wordOverlapSimilarity_def Let_def)
  qed
qed

lemma containment_bounds:
  fixes a b :: nat
  assumes "a \<le> b"
  shows "0 \<le> 0.85 + (real a / real b) * 0.15 \<and> 0.85 + (real a / real b) * 0.15 \<le> (1::real)"
proof -
  have "real a / real b \<le> 1" using assms by (cases "b = 0") simp_all
  moreover have "0 \<le> real a / real b" by simp
  ultimately show ?thesis by simp
qed

lemma calculateTextSimilarity_bounds:
  "0 \<le> calculateTextSimilarity t1 t2 \<and> calculateTextSimilarity t1 t2 \<le> 1"
proof -
  let ?s1 = "trim (toLowerCase t1)" and ?s2 = "trim (toLowerCase t2)"
  have c: "0 \<le> 0.85 + (real (length (if length ?s1 < length ?s2 then ?s1 else ?s2))
                      / real (length (if length ?s1 < length ?s2 then ?s2 else ?s1))) * 0.15
         \<and> 0.85 + (real (length (if length ?s1 < length ?s2 then ?s1 else ?s2))
                      / real (length (if length ?s1 < length ?s2 then ?s2 else ?s1))) * 0.15 \<le> (1::real)"
    by (rule containment_bounds) simp
  show ?thesis
    unfolding calculateTextSimilarity_def Let_def
    using c levenshteinSimilarity_bounds[of ?s1 ?s2] wordOverlapSimilarity_bounds[of ?s1 ?s2]
    by (simp split: if_splits)
qed

lemma text_element_bounds:
  assumes "c \<in> set (text_element_candidates originalText expType el)"
  shows "0 \<le> xc_confidence c \<and> xc_confidence c \<le> 1"
proof -
  let ?txt = "the (el_text el)"
  let ?sim = "calculateTextSimilarity originalText ?txt"
  let ?conf = "if toLowerCase ?txt = toLowerCase originalText then 0.95
               else if toLowerCase (trim ?txt) = toLowerCase (trim originalText) then 0.92
               else ?sim"
  have b: "0 \<le> ?conf \<and> ?conf \<le> 1"
    using calculateTextSimilarity_bounds[of originalText ?txt] by simp
  have "xc_confidence c = ?conf \<or> xc_confidence c = min (?conf + 0.05) 1"
    using assms
    by (simp add: text_element_candidates_def Let_def split: if_splits) auto
  with b show ?thesis by (auto simp: min_def)
qed

lemma text_candidate_bounds:
  "c \<in> set (text_findCandidates originalText els expType) \<Longrightarrow>
   0 \<le> xc_confidence c \<and> xc_confidence c \<le> 1"
  using text_element_bounds
  by (auto simp: text_findCandidates_def sort_desc_def dest!: in_set_takeD)


lemma testid_validate_confidence:
  "(\<forall>c \<in> set remaining. 0 \<le> tc_confidence c \<and> tc_confidence c \<le> 1) \<Longrightarrow>
   0 \<le> confidence (fst (testid_validate w b x cands remaining))
   \<and> confidence (fst (testid_validate w b x cands remaining)) \<le> 1"
  by (induction remaining) (simp_all add: failure_def with_event_def Let_def)

lemma text_validate_confidence:
  "(\<forall>c \<in> set remaining. 0 \<le> xc_confidence c \<and> xc_confidence c \<le> 1) \<Longrightarrow>
   0 \<le> confidence (fst (text_validate w b x cands remaining))
   \<and> confidence (fst (text_validate w b x cands remaining)) \<le> 1"
  by (induction remaining) (simp_all add: failure_def with_event_def Let_def)

lemma css_validate_confidence:
  "(\<forall>c \<in> set remaining. 0 \<le> cc_confidence c \<and> cc_confidence c \<le> 1) \<Longrightarrow>
   0 \<le> confidence (fst (css_validate w b cands [] remaining))
   \<and> confidence (fst (css_validate w b cands [] remaining)) \<le> 1"
  by (induction remaining) (simp_all add: failure_def with_event_def css_success_def Let_def)

lemma non_llm_strategy_confidence:
  assumes "name \<noteq> AiPoweredAnalysis"
  shows "0 \<le> confidence (fst (strategy_heal w name b opts))
       \<and> confidence (fst (strategy_heal w name b opts)) \<le> 1"
proof (cases name)
  case DataTestidRecovery
  then show ?thesis
    using testid_validate_confidence testid_candidate_bounds
    by (simp add: strategy_heal_def testid_heal_def failure_def Let_def split: sum.splits)
next
  case TextContentMatching
  then show ?thesis
    using text_validate_confidence text_candidate_bounds
    by (simp add: strategy_heal_def text_heal_def failure_def Let_def split: sum.splits)
next
  case CssHierarchyAnalysis
  then show ?thesis
    using css_validate_confidence css_candidate_bounds
    by (simp add: strategy_heal_def css_heal_def Let_def)
next
  case AiPoweredAnalysis
  then show ?thesis using assms by simp
qed

lemma old_testid: "extractTestId ''#old'' = None" by code_simp
lemma old_text: "extractTextContent ''#old'' = None" by code_simp
lemma old_css: "generateAlternatives (analyzeSelector ''#old'') = []" by code_simp
lemma llm_json_match: "rx_search [json_rx] llm_reply = Some (llm_reply, [])" by code_simp
lemma trim_go: "trim ''#go'' = ''#go''" by code_simp

lemma llm_parse:
  "parseAiSuggestions llm_page llm_reply
     = [\<lparr>as_selector = ''#go'', as_confidence = 5, as_reasoning = None\<rparr>]"
  by (simp add: parseAiSuggestions_def collect_suggestions_def llm_json_match llm_page_def
        suggestions_of_items_def truthy_def trim_go confidence_or_default_def sort_desc_def)

lemma llm_ai_heal:
  "ai_heal llm_page ''#old'' opts =
     (\<lparr>success = True, selector = ''#go'', confidence = 5, strategy = AiPoweredAnalysis,
       alternatives = [], error = None, metadata = Some (AiReasoning None 1)\<rparr>,
      [Probe ''#go'' True])"
proof -
  have c: "checkSelectorExists llm_page ''#go''" by (simp add: llm_page_def checkSelectorExists_def)
  have w: "ollama_tags llm_page = Some True" "page_context llm_page = None"
    "ollama_generate llm_page = Inr llm_reply" by (simp_all add: llm_page_def)
  show ?thesis using c by (simp add: ai_heal_def w llm_parse with_event_def)
qed

lemma llm_heal:
  "fst (heal llm_page 0 default_engine ''#old'' no_options) =
     \<lparr>success = True, selector = ''#go'', confidence = 5, strategy = AiPoweredAnalysis,
       alternatives = [], error = None, metadata = Some (AiReasoning None 1)\<rparr>"
proof -
  have n: "\<not> checkSelectorExists llm_page ''#old''" by (simp add: llm_page_def checkSelectorExists_def)
  have css: "css_heal llm_page ''#old'' = (failure CssHierarchyAnalysis ''#old'' [] ''No CSS hierarchy alternatives found'' None, [])"
    by (simp add: css_heal_def old_css)
  have t: "fst (try_strategies llm_page (strategy_table default_engine) ''#old'' no_options
            [DataTestidRecovery, TextContentMatching, CssHierarchyAnalysis, AiPoweredAnalysis] None)
         = Some (AiPoweredAnalysis, \<lparr>success = True, selector = ''#go'', confidence = 5, strategy = AiPoweredAnalysis,
       alternatives = [], error = None, metadata = Some (AiReasoning None 1)\<rparr>)"
    by (simp add: default_engine_def strategy_heal_def testid_heal_def text_heal_def old_testid old_text
          truthy_def css llm_ai_heal failure_def)
  obtain lastR evs where t': "try_strategies llm_page (strategy_table default_engine) ''#old'' no_options
            [DataTestidRecovery, TextContentMatching, CssHierarchyAnalysis, AiPoweredAnalysis] None
         = (Some (AiPoweredAnalysis, \<lparr>success = True, selector = ''#go'', confidence = 5,
               strategy = AiPoweredAnalysis, alternatives = [], error = None,
               metadata = Some (AiReasoning None 1)\<rparr>), lastR, evs)"
    using t
    by (cases "try_strategies llm_page (strategy_table default_engine) ''#old'' no_options
            [DataTestidRecovery, TextContentMatching, CssHierarchyAnalysis, AiPoweredAnalysis] None") auto
  have "heal_attempts llm_page (strategy_table default_engine) (engine_config default_engine)
               ''#old'' no_options 0 None
         = (Some (AiPoweredAnalysis, \<lparr>success = True, selector = ''#go'', confidence = 5,
               strategy = AiPoweredAnalysis, alternatives = [], error = None,
               metadata = Some (AiReasoning None 1)\<rparr>), lastR, evs)"
    using t' default_engine_facts(3,4) by (subst heal_attempts.simps) simp
  then show ?thesis
    using n default_engine_facts(1) cache_check_absent[OF default_engine_facts(7), of llm_page "''#old''"]
    by (simp add: heal_def Let_def)
qed

text \<open>
  C1 fails on the code, for the LLM strategy: it takes the confidence a suggestion declares
  as it is. The LLM reply \<open>{"suggestions":[{"selector":"#go","confidence":5}]}\<close>
  gives a candidate of confidence 5, and on a page where \<open>#go\<close> resolves \<open>heal\<close> returns it
  as a success of confidence 5, which is not in the interval from 0 to 1.
\<close>

theorem llm_confidence_not_clamped:
  "map as_confidence (parseAiSuggestions llm_page llm_reply) = [5]
   \<and> success (fst (heal llm_page 0 default_engine ''#old'' no_options))
   \<and> strategy (fst (heal llm_page 0 default_engine ''#old'' no_options)) = AiPoweredAnalysis
   \<and> confidence (fst (heal llm_page 0 default_engine ''#old'' no_options)) = 5
   \<and> \<not> confidence (fst (heal llm_page 0 default_engine ''#old'' no_options)) \<le> 1"
  by (simp add: llm_parse llm_heal)

section \<open>The scoring of the TestID strategy\<close>

lemma set_sort_desc [simp]: "set (sort_desc key xs) = set xs"
  by (simp add: sort_desc_def)

lemma contains_score:
  assumes "toLowerCase extracted \<noteq> toLowerCase pageId"
    and "normalizeName extracted \<noteq> normalizeName pageId"
    and "str_includes (toLowerCase pageId) (toLowerCase extracted)"
  shows "testid_score extracted pageId = (0.8, ''contains'')"
  using assms by (simp add: testid_score_def)

lemma element_candidates_contains:
  assumes "el_testId el = Some pageId" and "pageId \<noteq> []"
    and "toLowerCase extracted \<noteq> toLowerCase pageId"
    and "normalizeName extracted \<noteq> normalizeName pageId"
    and "str_includes (toLowerCase pageId) (toLowerCase extracted)"
  shows "testid_element_candidates extracted expType el =
     (if calculateSimilarity extracted pageId > 0.5
      then map (\<lambda>attr. contains_candidate attr pageId
                  (if truthy expType \<and> el_tag el = toLowerCase (the expType) then 0.9 else 0.8))
             TEST_ID_ATTRIBUTES
      else [])"
  using assms contains_score[OF assms(3,4,5)]
  by (simp add: testid_element_candidates_def truthy_def contains_candidate_def Let_def)

text \<open>
  C5, as the code has it. For an extracted test id and a page test id where the extracted
  one is a case-insensitive substring of the page one, and the two are neither equal nor
  equal after normalisation: when the Levenshtein similarity of the pair is above 0.5, a
  candidate is emitted under every recognised attribute, with match type \<open>contains\<close> and
  confidence 0.80, or 0.90 when the tag of the element is the expected type; when the
  similarity is 0.5 or less, the element gives no candidate.
\<close>

theorem testid_contains_scoring:
  assumes "el \<in> set els" and "el_testId el = Some pageId" and "pageId \<noteq> []"
    and "toLowerCase extracted \<noteq> toLowerCase pageId"
    and "normalizeName extracted \<noteq> normalizeName pageId"
    and "str_includes (toLowerCase pageId) (toLowerCase extracted)"
    and "conf = (if truthy expType \<and> el_tag el = toLowerCase (the expType) then 0.9 else 0.8)"
  shows "(calculateSimilarity extracted pageId > 0.5 \<longrightarrow>
            (\<forall>attr \<in> set TEST_ID_ATTRIBUTES.
               contains_candidate attr pageId conf \<in> set (testid_findCandidates extracted els expType)))
       \<and> (calculateSimilarity extracted pageId \<le> 0.5 \<longrightarrow>
            testid_element_candidates extracted expType el = [])"
proof -
  note ec = element_candidates_contains[OF assms(2,3,4,5,6), of expType]
  show ?thesis
  proof (intro conjI impI ballI)
    fix attr assume s: "calculateSimilarity extracted pageId > 0.5" and a: "attr \<in> set TEST_ID_ATTRIBUTES"
    from ec s a assms(7) have "contains_candidate attr pageId conf \<in> set (testid_element_candidates extracted expType el)"
      by auto
    with assms(1) show "contains_candidate attr pageId conf \<in> set (testid_findCandidates extracted els expType)"
      by (auto simp: testid_findCandidates_def)
  next
    assume "calculateSimilarity extracted pageId \<le> 0.5"
    with ec show "testid_element_candidates extracted expType el = []" by simp
  qed
qed

lemma sim1: "calculateSimilarity ''submit'' ''submit-btn'' = 3/5" by code_simp
lemma sim2: "calculateSimilarity ''ab'' ''abcdef'' = 1/3" by code_simp
lemma low1: "toLowerCase ''submit'' = ''submit''" "toLowerCase ''submit-btn'' = ''submit-btn''" by code_simp+
lemma low2: "toLowerCase ''ab'' = ''ab''" "toLowerCase ''abcdef'' = ''abcdef''" by code_simp+
lemma norm1: "normalizeName ''submit'' = ''submit''" "normalizeName ''submit-btn'' = ''submitbtn''" by code_simp+
lemma norm2: "normalizeName ''ab'' = ''ab''" "normalizeName ''abcdef'' = ''abcdef''" by code_simp+
lemma inc1: "str_includes ''submit-btn'' ''submit''" by code_simp
lemma inc2: "str_includes ''abcdef'' ''ab''" by code_simp

theorem testid_contains_scoring_witness:
  \<open>contains_candidate ''data-cy'' ''submit-btn'' 0.9
     \<in> set (testid_findCandidates ''submit'' [page_element ''button'' ''submit-btn''] (Some ''BUTTON''))
   \<and> testid_element_candidates ''ab'' None (page_element ''button'' ''abcdef'') = []\<close>
proof -
  have b: "toLowerCase ''BUTTON'' = ''button''" by code_simp
  have a: "''data-cy'' \<in> set TEST_ID_ATTRIBUTES" by (simp add: TEST_ID_ATTRIBUTES_def)
  have 1: "contains_candidate ''data-cy'' ''submit-btn'' 0.9
     \<in> set (testid_findCandidates ''submit'' [page_element ''button'' ''submit-btn''] (Some ''BUTTON''))"
    using testid_contains_scoring[where el="page_element ''button'' ''submit-btn''"
        and els="[page_element ''button'' ''submit-btn'']" and pageId="''submit-btn''"
        and extracted="''submit''" and expType="Some ''BUTTON''" and conf="0.9"] a
    by (simp add: sim1 low1 norm1 inc1 b page_element_def truthy_def)
  have 2: "testid_element_candidates ''ab'' None (page_element ''button'' ''abcdef'') = []"
    using testid_contains_scoring[where el="page_element ''button'' ''abcdef''"
        and els="[page_element ''button'' ''abcdef'']" and pageId="''abcdef''"
        and extracted="''ab''" and expType="None" and conf="0.8"]
    by (simp add: sim2 low2 norm2 inc2 page_element_def truthy_def)
  from 1 2 show ?thesis by simp
qed

text \<open>
  The claim as the specification words it fails: \<open>ab\<close> is a substring of \<open>abcdef\<close>, their
  Levenshtein similarity is 1/3, and no candidate is emitted.
\<close>

theorem testid_contains_counterexample:
  "str_includes (toLowerCase ''abcdef'') (toLowerCase ''ab'')
   \<and> toLowerCase ''ab'' \<noteq> toLowerCase ''abcdef''
   \<and> normalizeName ''ab'' \<noteq> normalizeName ''abcdef''
   \<and> testid_findCandidates ''ab'' [page_element ''button'' ''abcdef''] None = []"
  by (simp add: testid_findCandidates_def testid_element_candidates_def sim2 low2 norm2 inc2
        page_element_def truthy_def sort_desc_def)

section \<open>The URL of the LLM endpoint\<close>

lemma validateUrl_passes:
  "validateUrl url_parse u default_allowed_hosts \<longleftrightarrow> passes_allow_lists (url_parse u)"
  by (auto simp: validateUrl_def passes_allow_lists_def Let_def split: option.splits)

lemma new_ai_unfold:
  "new_AiPoweredAnalysisStrategy url_parse opts =
     (if passes_allow_lists (url_parse (effective_url (nullish (opt_ollamaUrl opts) [])))
      then Inr \<lparr>ollamaUrl = effective_url (nullish (opt_ollamaUrl opts) []),
                 model = (if truthy (opt_model opts) then the (opt_model opts) else ''qwen2.5-coder:3b''),
                 timeout = or_default (opt_timeout opts) 30000\<rparr>
      else Inl ''Invalid Ollama URL. Only localhost and 127.0.0.1 are allowed for security.'')"
  by (auto simp: new_AiPoweredAnalysisStrategy_def effective_url_def nullish_def truthy_def Let_def
        validateUrl_passes split: option.splits)

lemma new_engine_unfold:
  "new_HealingEngine url_parse c =
     (if passes_allow_lists (url_parse (configured_url c))
      then Inr \<lparr>engine_config = mergeWithDefaults c,
                strategy_table = [DataTestidRecovery, TextContentMatching, CssHierarchyAnalysis, AiPoweredAnalysis],
                cache = [], flakinessTracker = []\<rparr>
      else Inl ''Invalid Ollama URL. Only localhost and 127.0.0.1 are allowed for security.'')"
  by (simp add: new_HealingEngine_def initializeStrategies_def new_ai_unfold nullish_def configured_url_def)

text \<open>
  C9, as the code has it. The construction of the engine, and that of the LLM strategy,
  succeeds when the URL parses, its host name is an allowed host (\<open>localhost\<close>,
  \<open>127.0.0.1\<close>) or ends with a dot followed by an allowed host, and its port component is
  empty or one of 80, 443, 8080 and 11434; otherwise it fails with an error.
\<close>

theorem construction_checks_url:
  "((\<exists>e. new_HealingEngine url_parse c = Inr e) \<longleftrightarrow> passes_allow_lists (url_parse (configured_url c)))
   \<and> ((\<exists>msg. new_HealingEngine url_parse c = Inl msg) \<longleftrightarrow> \<not> passes_allow_lists (url_parse (configured_url c)))
   \<and> ((\<exists>a. new_AiPoweredAnalysisStrategy url_parse opts = Inr a)
         \<longleftrightarrow> passes_allow_lists (url_parse (effective_url (nullish (opt_ollamaUrl opts) []))))
   \<and> ((\<exists>msg. new_AiPoweredAnalysisStrategy url_parse opts = Inl msg)
         \<longleftrightarrow> \<not> passes_allow_lists (url_parse (effective_url (nullish (opt_ollamaUrl opts) []))))"
  by (simp add: new_engine_unfold new_ai_unfold)

lemma configured_urls:
  "configured_url empty_config = ''http://localhost:11434''"
  "configured_url (config_with_url ''http://evil.localhost:11434'') = ''http://evil.localhost:11434''"
  "configured_url (config_with_url ''http://example.com:11434'') = ''http://example.com:11434''"
  by (simp_all add: configured_url_def effective_url_def mergeWithDefaults_def empty_config_def
        config_with_url_def field_or_def nullish_def)

lemma local_parse_passes:
  "passes_allow_lists (local_parse ''http://localhost:11434'')"
  "passes_allow_lists (local_parse ''http://evil.localhost:11434'')"
  "\<not> passes_allow_lists (local_parse ''http://example.com:11434'')"
  by code_simp+

theorem construction_checks_url_witness:
  "new_HealingEngine local_parse empty_config = Inr default_engine
   \<and> (\<exists>msg. new_HealingEngine local_parse (config_with_url ''http://example.com:11434'') = Inl msg)"
proof -
  have 1: "\<exists>e. new_HealingEngine local_parse empty_config = Inr e"
    using construction_checks_url[of local_parse empty_config] local_parse_passes(1)
    by (simp add: configured_urls)
  have 2: "\<exists>msg. new_HealingEngine local_parse (config_with_url ''http://example.com:11434'') = Inl msg"
    using construction_checks_url[of local_parse "config_with_url ''http://example.com:11434''"]
      local_parse_passes(3)
    by (simp add: configured_urls)
  from 1 have "new_HealingEngine local_parse empty_config = Inr default_engine"
    by (auto simp: new_HealingEngine_def initializeStrategies_def default_engine_def split: sum.splits prod.splits option.splits)
  with 2 show ?thesis by simp
qed

text \<open>
  The claim as the specification words it fails: the host name \<open>evil.localhost\<close> is not in
  the allow-list, and the engine is constructed.
\<close>

theorem hostname_allow_list_counterexample:
  "local_parse ''http://evil.localhost:11434'' = Some \<lparr>hostname = ''evil.localhost'', port = ''11434''\<rparr>
   \<and> ''evil.localhost'' \<notin> set default_allowed_hosts
   \<and> (\<exists>e. new_HealingEngine local_parse (config_with_url ''http://evil.localhost:11434'') = Inr e)"
proof -
  have "\<exists>e. new_HealingEngine local_parse (config_with_url ''http://evil.localhost:11434'') = Inr e"
    using local_parse_passes(2) by (simp add: new_engine_unfold configured_urls)
  then show ?thesis by (simp add: local_parse_def default_allowed_hosts_def)
qed

section \<open>The health check\<close>

lemma new_default_engine: "new_HealingEngine local_parse empty_config = Inr default_engine"
  using local_parse_passes(1) by (simp add: new_engine_unfold configured_urls default_engine_def)

lemma constructed_has_ai:
  "new_HealingEngine url_parse c = Inr e \<Longrightarrow> AiPoweredAnalysis \<in> set (strategy_table e)"
  by (auto simp: new_engine_unfold split: if_splits)

text \<open>
  C10. \<open>healthCheck\<close> never returns the status \<open>offline\<close>: whatever the engine and the
  outcome of the request to the LLM backend, the three other strategies are reported
  available. With the LLM strategy in the table, as it is in every constructed engine, the
  status is \<open>healthy\<close> when the request succeeds and \<open>degraded\<close> when it fails.
\<close>

theorem healthCheck_never_offline:
  "status (healthCheck tags e) \<noteq> Offline
   \<and> map_of (strategy_health (healthCheck tags e)) DataTestidRecovery = Some True
   \<and> map_of (strategy_health (healthCheck tags e)) TextContentMatching = Some True
   \<and> map_of (strategy_health (healthCheck tags e)) CssHierarchyAnalysis = Some True
   \<and> (AiPoweredAnalysis \<in> set (strategy_table e) \<or> new_HealingEngine url_parse c = Inr e \<longrightarrow>
        status (healthCheck tags e) = (if tags = Some True then Healthy else Degraded))"
  using constructed_has_ai[of url_parse c e]
  by (auto simp: healthCheck_def Let_def split: option.splits)

theorem healthCheck_never_offline_witness:
  "new_HealingEngine local_parse empty_config = Inr default_engine
   \<and> status (healthCheck (Some True) default_engine) = Healthy
   \<and> status (healthCheck (Some False) default_engine) = Degraded
   \<and> status (healthCheck None default_engine) = Degraded"
  using healthCheck_never_offline[of "Some True" default_engine local_parse empty_config]
    healthCheck_never_offline[of "Some False" default_engine local_parse empty_config]
    healthCheck_never_offline[of None default_engine local_parse empty_config]
    new_default_engine
  by simp

end
